theory Spec2Isabelle
  imports Complex_Main
begin

section \<open>RateLimiter\<close>

text \<open>
  The class \<open>RateLimiter\<close> of \<open>sandboxSdk.ts\<close>. Its fields are the array
  \<open>requestTimestamps\<close>, the counter \<open>concurrentJobs\<close> and the constructor parameter
  \<open>maxRequestsPerMinute\<close>. Timestamps are the millisecond values of \<open>Date.now()\<close>; every
  method that reads the clock takes the value read as its first argument \<open>now\<close>.
\<close>

record rate_limiter =
  requestTimestamps :: "int list"
  concurrentJobs :: int
  maxRequestsPerMinute :: int

definition new_RateLimiter :: "int \<Rightarrow> rate_limiter" where
  "new_RateLimiter m =
     \<lparr>requestTimestamps = [], concurrentJobs = 0, maxRequestsPerMinute = m\<rparr>"

text \<open>The constructor's default argument.\<close>

definition default_RateLimiter :: rate_limiter where
  "default_RateLimiter = new_RateLimiter 60"

text \<open>
  \<open>canMakeRequest\<close> stores the filtered array back into the object and returns the
  verdict; the model returns both.
\<close>

definition canMakeRequest :: "int \<Rightarrow> rate_limiter \<Rightarrow> bool \<times> rate_limiter" where
  "canMakeRequest now rl =
     (let oneMinuteAgo = now - 60000;
          rl' = rl\<lparr>requestTimestamps :=
                    filter (\<lambda>ts. ts > oneMinuteAgo) (requestTimestamps rl)\<rparr>
      in if int (length (requestTimestamps rl')) \<ge> maxRequestsPerMinute rl'
         then (False, rl')
         else (True, rl'))"

definition rl_recordRequest :: "int \<Rightarrow> rate_limiter \<Rightarrow> rate_limiter" where
  "rl_recordRequest now rl = rl\<lparr>requestTimestamps := requestTimestamps rl @ [now]\<rparr>"

definition getRetryAfter :: "int \<Rightarrow> rate_limiter \<Rightarrow> int" where
  "getRetryAfter now rl =
     (case requestTimestamps rl of
        [] \<Rightarrow> 0
      | oldestTimestamp # _ \<Rightarrow>
          (let retryAfter = 60000 - (now - oldestTimestamp) in max retryAfter 0))"

text \<open>
  \<open>++this.concurrentJobs\<close> and \<open>--this.concurrentJobs\<close> store the new value in the field;
  the returned number is the first component.
\<close>

definition incrementConcurrentJobs :: "rate_limiter \<Rightarrow> int \<times> rate_limiter" where
  "incrementConcurrentJobs rl =
     (let rl' = rl\<lparr>concurrentJobs := concurrentJobs rl + 1\<rparr>
      in (concurrentJobs rl', rl'))"

definition decrementConcurrentJobs :: "rate_limiter \<Rightarrow> int \<times> rate_limiter" where
  "decrementConcurrentJobs rl =
     (let rl' = rl\<lparr>concurrentJobs := concurrentJobs rl - 1\<rparr>
      in (max (concurrentJobs rl') 0, rl'))"

definition getConcurrentJobs :: "rate_limiter \<Rightarrow> int" where
  "getConcurrentJobs rl = concurrentJobs rl"

text \<open>
  \<open>SandboxSDK.checkRateLimit\<close>: the thrown \<open>RateLimitError\<close> carries the retry delay;
  the pruned array stays in the limiter on both paths.
\<close>

definition checkRateLimit :: "int \<Rightarrow> rate_limiter \<Rightarrow> int option \<times> rate_limiter" where
  "checkRateLimit now rl =
     (case canMakeRequest now rl of
        (False, rl') \<Rightarrow> (Some (getRetryAfter now rl'), rl')
      | (True, rl') \<Rightarrow> (None, rl_recordRequest now rl'))"

text \<open>
  A history of calls on one limiter. Each call is stamped with the clock value it reads.
\<close>

datatype rl_call = CanMakeRequest | RecordRequest | Increment | Decrement

fun rl_step :: "int \<times> rl_call \<Rightarrow> rate_limiter \<Rightarrow> rate_limiter" where
  "rl_step (now, CanMakeRequest) rl = snd (canMakeRequest now rl)"
| "rl_step (now, RecordRequest) rl = rl_recordRequest now rl"
| "rl_step (now, Increment) rl = snd (incrementConcurrentJobs rl)"
| "rl_step (now, Decrement) rl = snd (decrementConcurrentJobs rl)"

definition rl_run :: "(int \<times> rl_call) list \<Rightarrow> rate_limiter \<Rightarrow> rate_limiter" where
  "rl_run calls rl = foldl (\<lambda>r c. rl_step c r) rl calls"

text \<open>The timestamps handed to \<open>recordRequest\<close> in a history, in call order.\<close>

definition recorded :: "(int \<times> rl_call) list \<Rightarrow> int list" where
  "recorded calls = map fst (filter (\<lambda>c. snd c = RecordRequest) calls)"

text \<open>The rolling window at \<open>now\<close>: the timestamps less than 60000 ms old.\<close>

definition window :: "int \<Rightarrow> int list \<Rightarrow> int list" where
  "window now tss = filter (\<lambda>ts. now - ts < 60000) tss"


section \<open>MetricsCollector\<close>

text \<open>
  Durations and the average are JavaScript numbers; they are modelled as reals, so the
  quotient in \<open>updateAverageResponseTime\<close> is the exact one. \<open>lastUpdated\<close> is the
  millisecond value of the \<open>Date\<close>.
\<close>

record metrics_data =
  totalRequests :: int
  successfulRequests :: int
  failedRequests :: int
  averageResponseTime :: real
  totalExecutionTime :: real
  activeSandboxes :: int
  lastUpdated :: int

record metrics_collector =
  metrics :: metrics_data
  responseTimes :: "real list"

definition new_MetricsCollector :: "int \<Rightarrow> metrics_collector" where
  "new_MetricsCollector now =
     \<lparr>metrics = \<lparr>totalRequests = 0, successfulRequests = 0, failedRequests = 0,
                  averageResponseTime = 0, totalExecutionTime = 0, activeSandboxes = 0,
                  lastUpdated = now\<rparr>,
      responseTimes = []\<rparr>"

definition updateAverageResponseTime :: "metrics_collector \<Rightarrow> metrics_collector" where
  "updateAverageResponseTime mc =
     (if length (responseTimes mc) = 0 then mc
      else (let sum = foldl (\<lambda>a b. a + b) 0 (responseTimes mc)
            in mc\<lparr>metrics := (metrics mc)
                   \<lparr>averageResponseTime := sum / real (length (responseTimes mc))\<rparr>\<rparr>))"

text \<open>\<open>Array.prototype.shift\<close> removes the first element.\<close>

definition mc_recordRequest :: "bool \<Rightarrow> real \<Rightarrow> metrics_collector \<Rightarrow> metrics_collector" where
  "mc_recordRequest success responseTime mc =
     (let m1 = (metrics mc)\<lparr>totalRequests := totalRequests (metrics mc) + 1\<rparr>;
          m2 = (if success then m1\<lparr>successfulRequests := successfulRequests m1 + 1\<rparr>
                else m1\<lparr>failedRequests := failedRequests m1 + 1\<rparr>);
          pushed = responseTimes mc @ [responseTime];
          ring = (if length pushed > 1000 then tl pushed else pushed)
      in updateAverageResponseTime \<lparr>metrics = m2, responseTimes = ring\<rparr>)"

definition recordExecution :: "real \<Rightarrow> metrics_collector \<Rightarrow> metrics_collector" where
  "recordExecution duration mc =
     mc\<lparr>metrics := (metrics mc)
          \<lparr>totalExecutionTime := totalExecutionTime (metrics mc) + duration\<rparr>\<rparr>"

definition updateActiveSandboxes :: "int \<Rightarrow> metrics_collector \<Rightarrow> metrics_collector" where
  "updateActiveSandboxes count mc =
     mc\<lparr>metrics := (metrics mc)\<lparr>activeSandboxes := count\<rparr>\<rparr>"

definition getMetrics :: "int \<Rightarrow> metrics_collector \<Rightarrow> metrics_data" where
  "getMetrics now mc = (metrics mc)\<lparr>lastUpdated := now\<rparr>"

definition mc_reset :: "int \<Rightarrow> metrics_collector \<Rightarrow> metrics_collector" where
  "mc_reset now mc = new_MetricsCollector now"

text \<open>Feeding a sequence of samples \<open>(success, responseTime)\<close> in order.\<close>

definition feed :: "(bool \<times> real) list \<Rightarrow> metrics_collector \<Rightarrow> metrics_collector" where
  "feed samples mc = foldl (\<lambda>c (ok, rt). mc_recordRequest ok rt c) mc samples"


text \<open>The list that \<open>push\<close> followed by the conditional \<open>shift\<close> leaves in the ring.\<close>

definition ring_push :: "real \<Rightarrow> real list \<Rightarrow> real list" where
  "ring_push x xs = (if length (xs @ [x]) > 1000 then tl (xs @ [x]) else xs @ [x])"


section \<open>Values carried by messages\<close>

text \<open>
  A decoded JSON value, as \<open>JSON.parse\<close> returns it. Objects are association lists with
  distinct keys. A JavaScript value that may be \<open>undefined\<close> is a \<open>json option\<close>, with
  \<open>None\<close> for \<open>undefined\<close>.
\<close>

datatype json =
    JNull
  | JBool bool
  | JNum real
  | JStr string
  | JArr "json list"
  | JObj "(string \<times> json) list"

type_synonym jsval = "json option"

text \<open>
  Property read \<open>v.k\<close> on a value other than \<open>null\<close>: an object yields the entry or
  \<open>undefined\<close>; the keys read by the SDK are no properties of arrays, strings, numbers or
  booleans. Reading a property of \<open>null\<close> throws and is a separate branch of the caller.
\<close>

fun get_prop :: "json \<Rightarrow> string \<Rightarrow> jsval" where
  "get_prop (JObj kvs) k = map_of kvs k"
| "get_prop _ k = None"

datatype sdk_error =
    ConnectionError string
  | TimeoutError string int
  | SandboxError string
  | RateLimitError int
  | SyntaxError
  | TypeError
  | CallbackFailure string

text \<open>
  \<open>TimeoutError p t\<close> stands for the message \<open>p\<close> followed by \<open>${t}ms\<close>.
  \<open>SyntaxError\<close> is what \<open>JSON.parse\<close> throws, \<open>TypeError\<close> what a property read of
  \<open>null\<close> throws, \<open>CallbackFailure\<close> a value thrown or rejected by a caller's callback.
\<close>

subsection \<open>Promises\<close>

text \<open>
  The state of a JavaScript promise. Calling \<open>resolve\<close> or \<open>reject\<close> on a promise that is
  already settled has no effect.
\<close>

datatype 'a promise = Pending | Fulfilled 'a | Rejected sdk_error

definition resolve :: "'a \<Rightarrow> 'a promise \<Rightarrow> 'a promise" where
  "resolve v p = (case p of Pending \<Rightarrow> Fulfilled v | _ \<Rightarrow> p)"

definition reject :: "sdk_error \<Rightarrow> 'a promise \<Rightarrow> 'a promise" where
  "reject e p = (case p of Pending \<Rightarrow> Rejected e | _ \<Rightarrow> p)"

subsection \<open>Timers\<close>

text \<open>
  The runtime's view of a \<open>setTimeout\<close> timer: its callback runs at most once, and only
  while the timer is armed; \<open>clearTimeout\<close> disarms it.
\<close>

datatype timer = Armed | Fired | Cleared

definition clearTimeout :: "timer \<Rightarrow> timer" where
  "clearTimeout t = (case t of Armed \<Rightarrow> Cleared | _ \<Rightarrow> t)"


section \<open>Execution and Result\<close>

record execution_error =
  ee_name :: jsval
  ee_value :: jsval
  ee_traceback :: jsval

record result =
  isMainResult :: json
  raw :: "(string \<times> json) list"
  r_text :: jsval
  r_html :: jsval
  r_markdown :: jsval
  r_svg :: jsval
  r_png :: jsval
  r_jpeg :: jsval
  r_pdf :: jsval
  r_latex :: jsval
  r_json :: jsval
  r_javascript :: jsval
  r_data :: jsval
  r_chart :: jsval
  extra :: "(string \<times> json) list"

definition reservedKeys :: "string list" where
  "reservedKeys = [''text'', ''html'', ''markdown'', ''svg'', ''png'', ''jpeg'', ''pdf'',
     ''latex'', ''json'', ''javascript'', ''data'', ''chart'', ''type'', ''is_main_result'']"

definition new_Result :: "(string \<times> json) list \<Rightarrow> json \<Rightarrow> result" where
  "new_Result rawData main =
     \<lparr>isMainResult = main,
      raw = rawData,
      r_text = map_of rawData ''text'',
      r_html = map_of rawData ''html'',
      r_markdown = map_of rawData ''markdown'',
      r_svg = map_of rawData ''svg'',
      r_png = map_of rawData ''png'',
      r_jpeg = map_of rawData ''jpeg'',
      r_pdf = map_of rawData ''pdf'',
      r_latex = map_of rawData ''latex'',
      r_json = map_of rawData ''json'',
      r_javascript = map_of rawData ''javascript'',
      r_data = map_of rawData ''data'',
      r_chart = map_of rawData ''chart'',
      extra = filter (\<lambda>(key, v). key \<notin> set reservedKeys) rawData\<rparr>"

record logs =
  stdout :: "jsval list"
  stderr :: "jsval list"

record execution =
  results :: "result list"
  logs :: logs
  error :: "execution_error option"
  executionCount :: jsval

text \<open>\<open>new Execution()\<close> with the constructor's defaults.\<close>

definition new_Execution :: execution where
  "new_Execution =
     \<lparr>results = [], logs = \<lparr>stdout = [], stderr = []\<rparr>, error = None,
      executionCount = None\<rparr>"

record execution_metadata =
  executionId :: string
  sandboxId :: string
  startTime :: "int option"
  endTime :: "int option"
  duration :: "int option"

record execution_result =
  er_execution :: execution
  er_metadata :: execution_metadata
  er_timestamp :: int

record output_message =
  om_line :: jsval
  om_timestamp :: int
  om_error :: bool

text \<open>
  The callbacks of \<open>RunCodeOptions\<close>. A callback is given by its outcome on each argument:
  \<open>None\<close> when it completes, \<open>Some e\<close> when it throws or its promise rejects with \<open>e\<close>.
\<close>

record run_code_options =
  onStdout :: "(output_message \<Rightarrow> sdk_error option) option"
  onStderr :: "(output_message \<Rightarrow> sdk_error option) option"
  onResult :: "(result \<Rightarrow> sdk_error option) option"
  onError :: "(execution_error \<Rightarrow> sdk_error option) option"
  timeoutMs :: "int option"

text \<open>The callback invocations made while one chunk is processed, in order.\<close>

datatype cb_call =
    CalledOnResult result
  | CalledOnStdout output_message
  | CalledOnStderr output_message
  | CalledOnError execution_error

text \<open>\<open>if (opts?.cb) await opts.cb(arg)\<close>: the calls made and the failure, if any.\<close>

definition invoke ::
  "run_code_options option \<Rightarrow> (run_code_options \<Rightarrow> ('a \<Rightarrow> sdk_error option) option) \<Rightarrow>
   ('a \<Rightarrow> cb_call) \<Rightarrow> 'a \<Rightarrow> cb_call list \<times> sdk_error option" where
  "invoke opts sel tag arg =
     (case opts of
        None \<Rightarrow> ([], None)
      | Some os \<Rightarrow> (case sel os of None \<Rightarrow> ([], None) | Some cb \<Rightarrow> ([tag arg], cb arg)))"

text \<open>
  \<open>parseOutput\<close>. The argument \<open>line\<close> is the outcome of \<open>JSON.parse\<close> on the chunk's
  text: \<open>None\<close> when the text is no JSON (\<open>JSON.parse\<close> throws). The \<open>Execution\<close> object is
  mutated before the callback runs, so the returned execution carries the mutation also
  when the callback fails. The result is the execution, the callbacks invoked, and the
  failure with which the returned promise rejects, if any. The function is \<open>async\<close>:
  the mutation and the invocation of the callback happen synchronously in the call, and
  nothing but the end of the function follows the \<open>await\<close> of the callback, so the third
  component is all that is still to come when the call returns.
\<close>

definition parseOutput ::
  "int \<Rightarrow> execution \<Rightarrow> json option \<Rightarrow> run_code_options option \<Rightarrow>
   execution \<times> cb_call list \<times> sdk_error option" where
  "parseOutput now ex line opts =
     (case line of
        None \<Rightarrow> (ex, [], Some SyntaxError)
      | Some JNull \<Rightarrow> (ex, [], Some TypeError)
      | Some msg \<Rightarrow>
          (let timestamp = now * 1000;
               ty = get_prop msg ''type''
           in if ty = Some (JStr ''result'') then
                (let r = new_Result (case msg of JObj kvs \<Rightarrow> kvs | _ \<Rightarrow> [])
                           (case get_prop msg ''is_main_result'' of
                              None \<Rightarrow> JBool False
                            | Some JNull \<Rightarrow> JBool False
                            | Some v \<Rightarrow> v);
                     ex' = ex\<lparr>results := results ex @ [r]\<rparr>
                 in (ex', invoke opts onResult CalledOnResult r))
              else if ty = Some (JStr ''stdout'') then
                (let ex' = ex\<lparr>logs := (logs ex)
                              \<lparr>stdout := stdout (logs ex) @ [get_prop msg ''text'']\<rparr>\<rparr>
                 in (ex', invoke opts onStdout CalledOnStdout
                       \<lparr>om_line = get_prop msg ''text'', om_timestamp = timestamp,
                        om_error = False\<rparr>))
              else if ty = Some (JStr ''stderr'') then
                (let ex' = ex\<lparr>logs := (logs ex)
                              \<lparr>stderr := stderr (logs ex) @ [get_prop msg ''text'']\<rparr>\<rparr>
                 in (ex', invoke opts onStderr CalledOnStderr
                       \<lparr>om_line = get_prop msg ''text'', om_timestamp = timestamp,
                        om_error = True\<rparr>))
              else if ty = Some (JStr ''error'') then
                (let e = \<lparr>ee_name = get_prop msg ''name'', ee_value = get_prop msg ''value'',
                          ee_traceback = get_prop msg ''traceback''\<rparr>;
                     ex' = ex\<lparr>error := Some e\<rparr>
                 in (ex', invoke opts onError CalledOnError e))
              else if ty = Some (JStr ''execution_count'') then
                (ex\<lparr>executionCount := get_prop msg ''execution_count''\<rparr>, [], None)
              else (ex, [], None)))"


section \<open>The SDK object\<close>

subsection \<open>Incoming messages\<close>

text \<open>
  The payloads of the events the SDK listens to. \<open>oc_line\<close> is the outcome of
  \<open>JSON.parse\<close> on the \<open>line\<close> field of a \<open>job:output\<close> payload.
\<close>

record job_result_response =
  jr_jobId :: string
  jr_success :: bool
  jr_output :: jsval
  jr_error :: "string option"

record output_chunk =
  oc_jobId :: string
  oc_line :: "json option"

record stream_chunk_response =
  sc_jobId :: string
  sc_chunk :: string
  sc_timestamp :: "int option"

record stream_end_response =
  se_jobId :: string
  se_exitCode :: "int option"

datatype message =
    JobResult job_result_response
  | JobOutput output_chunk
  | Stream stream_chunk_response
  | StreamEnd stream_end_response

text \<open>The event name under which each payload arrives (\<open>SocketEvent\<close>).\<close>

definition RESULT :: string where "RESULT = ''job:result''"
definition STREAM :: string where "STREAM = ''job:stream''"
definition STREAM_END :: string where "STREAM_END = ''job:stream:end''"
definition JOB_OUTPUT :: string where "JOB_OUTPUT = ''job:output''"
definition EXECUTE :: string where "EXECUTE = ''job:execute''"
definition TERMINAL :: string where "TERMINAL = ''job:terminal''"

fun event_of :: "message \<Rightarrow> string" where
  "event_of (JobResult r) = RESULT"
| "event_of (JobOutput r) = JOB_OUTPUT"
| "event_of (Stream r) = STREAM"
| "event_of (StreamEnd r) = STREAM_END"

subsection \<open>Closures\<close>

text \<open>
  Every call of \<open>sendJob\<close>, \<open>sendStreamingJob\<close> or \<open>runTerminal\<close> runs a promise executor
  that creates fresh closures: the listener functions and the timer callback, sharing the
  executor's local variables. The executor calls are numbered; a listener function is
  identified by its kind and the number of the executor that created it, and the
  executor's local variables are kept in a record under that number.
\<close>

datatype listener =
    ResultListener nat
  | OutputListener nat
  | StreamListener nat
  | EndListener nat

record unary_job =
  uj_jobId :: string
  uj_timeout :: int
  uj_timeoutHandle :: bool
  uj_timer :: timer
  uj_promise :: "json promise"

record streaming_job =
  sj_jobId :: string
  sj_timeout :: int
  sj_timeoutHandle :: bool
  sj_timer :: timer
  sj_execution :: execution
  sj_metadata :: execution_metadata
  sj_opts :: "run_code_options option"
  sj_calls :: nat
  sj_suspended :: "(nat \<times> sdk_error option) list"
  sj_promise :: "int promise"

record terminal_job =
  tj_jobId :: string
  tj_timeout :: int
  tj_timeoutHandle :: bool
  tj_timer :: timer
  tj_startTime :: int
  tj_output :: string
  tj_opts :: "run_code_options option"
  tj_promise :: "string promise"

text \<open>
  The fields of \<open>SandboxSDK\<close> that the job machinery uses. \<open>socket\<close> is \<open>None\<close> for
  \<open>null\<close>; otherwise it holds the handlers registered with \<open>socket.on\<close>, in registration
  order. \<open>listeners\<close> is the \<open>Map<string, Set<Function>>\<close>. \<open>emitted\<close> lists the
  \<open>(event, jobId)\<close> pairs handed to \<open>socket.emit\<close>. \<open>timeout\<close> is \<open>config.timeout\<close>.
\<close>

record sdk =
  socket :: "(string \<times> listener) list option"
  isConnected :: bool
  listeners :: "string \<rightharpoonup> listener set"
  metricsCollector :: metrics_collector
  timeout :: int
  emitted :: "(string \<times> string) list"
  nextClosure :: nat
  unaryJobs :: "nat \<rightharpoonup> unary_job"
  streamingJobs :: "nat \<rightharpoonup> streaming_job"
  terminalJobs :: "nat \<rightharpoonup> terminal_job"

text \<open>
  The state the constructor leaves: the socket exists and has no job handlers, nothing
  is tracked. \<open>config.timeout || 60000\<close> takes the default for \<open>undefined\<close> and for 0.
\<close>

definition or_default :: "int option \<Rightarrow> int \<Rightarrow> int" where
  "or_default v d = (case v of None \<Rightarrow> d | Some t \<Rightarrow> if t = 0 then d else t)"

definition new_SandboxSDK :: "int \<Rightarrow> int option \<Rightarrow> sdk" where
  "new_SandboxSDK now cfg_timeout =
     \<lparr>socket = Some [], isConnected = False, listeners = Map.empty,
      metricsCollector = new_MetricsCollector now,
      timeout = or_default cfg_timeout 60000,
      emitted = [], nextClosure = 0,
      unaryJobs = Map.empty, streamingJobs = Map.empty, terminalJobs = Map.empty\<rparr>"

subsection \<open>Listener bookkeeping\<close>

definition trackListener :: "string \<Rightarrow> listener \<Rightarrow> sdk \<Rightarrow> sdk" where
  "trackListener event l s =
     (let m = (case listeners s event of
                 None \<Rightarrow> (listeners s)(event \<mapsto> {})
               | Some _ \<Rightarrow> listeners s)
      in s\<lparr>listeners := m(event \<mapsto> insert l (case m event of None \<Rightarrow> {} | Some S \<Rightarrow> S))\<rparr>)"

definition removeListener :: "string \<Rightarrow> listener \<Rightarrow> sdk \<Rightarrow> sdk" where
  "removeListener event l s =
     (let m = (case listeners s event of
                 None \<Rightarrow> listeners s
               | Some S \<Rightarrow> (listeners s)(event \<mapsto> S - {l}))
      in if m event = Some {} then s\<lparr>listeners := m(event := None)\<rparr>
         else s\<lparr>listeners := m\<rparr>)"

text \<open>
  \<open>socket.on\<close> appends a handler; \<open>socket.off\<close> removes the first registration of the
  given function for the event; \<open>this.socket?.off\<close> does nothing without a socket.
\<close>

definition socket_on :: "string \<Rightarrow> listener \<Rightarrow> sdk \<Rightarrow> sdk" where
  "socket_on event l s = s\<lparr>socket := map_option (\<lambda>hs. hs @ [(event, l)]) (socket s)\<rparr>"

definition socket_off :: "string \<Rightarrow> listener \<Rightarrow> sdk \<Rightarrow> sdk" where
  "socket_off event l s = s\<lparr>socket := map_option (remove1 (event, l)) (socket s)\<rparr>"

definition socket_emit :: "string \<Rightarrow> string \<Rightarrow> sdk \<Rightarrow> sdk" where
  "socket_emit event jobId s = s\<lparr>emitted := emitted s @ [(event, jobId)]\<rparr>"

text \<open>
  \<open>cleanupAllListeners\<close> calls \<open>socket.off\<close> once for every tracked pair and clears the
  map. No function is registered twice for an event, so the handlers left are those not
  tracked.
\<close>

definition tracked :: "sdk \<Rightarrow> string \<Rightarrow> listener \<Rightarrow> bool" where
  "tracked s event l = (case listeners s event of None \<Rightarrow> False | Some S \<Rightarrow> l \<in> S)"

definition attached :: "sdk \<Rightarrow> string \<Rightarrow> listener \<Rightarrow> bool" where
  "attached s event l = (case socket s of None \<Rightarrow> False | Some hs \<Rightarrow> (event, l) \<in> set hs)"

definition cleanupAllListeners :: "sdk \<Rightarrow> sdk" where
  "cleanupAllListeners s =
     s\<lparr>socket := map_option (filter (\<lambda>(event, l). \<not> tracked s event l)) (socket s),
       listeners := Map.empty\<rparr>"


subsection \<open>sendJob\<close>

text \<open>
  The promise executor of \<open>sendJob\<close>. \<open>jobId\<close> is the value \<open>uuid()\<close> returns. Without a
  socket the promise is rejected at once and nothing else happens (\<open>Inl\<close>); otherwise the
  result is the number of the executor, under which the promise and the closure
  variables are found, with the new state.
\<close>

definition sendJob ::
  "string \<Rightarrow> string \<Rightarrow> int option \<Rightarrow> sdk \<Rightarrow> sdk_error + nat \<times> sdk" where
  "sendJob event jobId tmo s =
     (case socket s of
        None \<Rightarrow> Inl (ConnectionError ''Socket not connected'')
      | Some _ \<Rightarrow>
          (let n = nextClosure s;
               job = \<lparr>uj_jobId = jobId, uj_timeout = or_default tmo (timeout s),
                      uj_timeoutHandle = True, uj_timer = Armed, uj_promise = Pending\<rparr>;
               s1 = s\<lparr>nextClosure := Suc n, unaryJobs := (unaryJobs s)(n \<mapsto> job)\<rparr>;
               s2 = trackListener RESULT (ResultListener n) s1;
               s3 = socket_on RESULT (ResultListener n) s2;
               s4 = socket_emit event jobId s3
           in Inr (n, s4)))"

text \<open>The callback handed to \<open>setTimeout\<close> in \<open>sendJob\<close>.\<close>

definition sendJob_timer :: "nat \<Rightarrow> sdk \<Rightarrow> sdk" where
  "sendJob_timer n s =
     (case unaryJobs s n of
        None \<Rightarrow> s
      | Some j \<Rightarrow>
          (let s1 = removeListener RESULT (ResultListener n) s
           in s1\<lparr>unaryJobs := (unaryJobs s1)(n \<mapsto>
                j\<lparr>uj_promise :=
                     reject (TimeoutError ''Job timeout after '' (uj_timeout j))
                       (uj_promise j)\<rparr>)\<rparr>))"

text \<open>
  The function \<open>listener\<close> of \<open>sendJob\<close>. \<open>res.error || "Job failed"\<close> takes the default
  for \<open>undefined\<close> and for the empty string.
\<close>

definition failure_text :: "string option \<Rightarrow> string" where
  "failure_text e = (case e of None \<Rightarrow> ''Job failed'' | Some m \<Rightarrow> if m = [] then ''Job failed'' else m)"

definition sendJob_listener :: "nat \<Rightarrow> job_result_response \<Rightarrow> sdk \<Rightarrow> sdk" where
  "sendJob_listener n res s =
     (case unaryJobs s n of
        None \<Rightarrow> s
      | Some j \<Rightarrow>
          if jr_jobId res \<noteq> uj_jobId j then s
          else
            (let j1 = (if uj_timeoutHandle j
                       then j\<lparr>uj_timer := clearTimeout (uj_timer j),
                              uj_timeoutHandle := False\<rparr>
                       else j);
                 s1 = removeListener RESULT (ResultListener n) s;
                 s2 = socket_off RESULT (ResultListener n) s1;
                 p = (case jr_output res of
                        Some out \<Rightarrow>
                          if jr_success res then resolve out (uj_promise j1)
                          else reject (SandboxError (failure_text (jr_error res)))
                                 (uj_promise j1)
                      | None \<Rightarrow>
                          reject (SandboxError (failure_text (jr_error res))) (uj_promise j1))
             in s2\<lparr>unaryJobs := (unaryJobs s2)(n \<mapsto> j1\<lparr>uj_promise := p\<rparr>)\<rparr>))"

subsection \<open>sendStreamingJob\<close>

text \<open>\<open>opts?.timeoutMs\<close>.\<close>

definition opts_timeoutMs :: "run_code_options option \<Rightarrow> int option" where
  "opts_timeoutMs opts = (case opts of None \<Rightarrow> None | Some os \<Rightarrow> timeoutMs os)"

definition sendStreamingJob ::
  "string \<Rightarrow> string \<Rightarrow> execution \<Rightarrow> execution_metadata \<Rightarrow> run_code_options option \<Rightarrow>
   sdk \<Rightarrow> sdk_error + nat \<times> sdk" where
  "sendStreamingJob event jobId ex md opts s =
     (case socket s of
        None \<Rightarrow> Inl (ConnectionError ''Socket not connected'')
      | Some _ \<Rightarrow>
          (let n = nextClosure s;
               job = \<lparr>sj_jobId = jobId,
                      sj_timeout = or_default (opts_timeoutMs opts) (timeout s),
                      sj_timeoutHandle = True, sj_timer = Armed, sj_execution = ex,
                      sj_metadata = md, sj_opts = opts, sj_calls = 0, sj_suspended = [],
                      sj_promise = Pending\<rparr>;
               s1 = s\<lparr>nextClosure := Suc n, streamingJobs := (streamingJobs s)(n \<mapsto> job)\<rparr>;
               s2 = trackListener JOB_OUTPUT (OutputListener n) s1;
               s3 = socket_on JOB_OUTPUT (OutputListener n) s2;
               s4 = socket_emit event jobId s3
           in Inr (n, s4)))"

text \<open>The function \<open>cleanup\<close> of \<open>sendStreamingJob\<close>.\<close>

definition streaming_cleanup :: "nat \<Rightarrow> sdk \<Rightarrow> sdk" where
  "streaming_cleanup n s =
     (case streamingJobs s n of
        None \<Rightarrow> s
      | Some j \<Rightarrow>
          (let j1 = (if sj_timeoutHandle j
                     then j\<lparr>sj_timer := clearTimeout (sj_timer j),
                            sj_timeoutHandle := False\<rparr>
                     else j);
               s1 = s\<lparr>streamingJobs := (streamingJobs s)(n \<mapsto> j1)\<rparr>
           in socket_off JOB_OUTPUT (OutputListener n) s1))"

text \<open>
  A call of the promise's \<open>resolve\<close> or \<open>reject\<close> function. The object handed to
  \<open>resolve\<close> refers to the executor's \<open>execution\<close> and \<open>metadata\<close> objects, which stay
  in the closure; the promise stores the object's \<open>timestamp\<close>.
\<close>

definition sj_settle ::
  "nat \<Rightarrow> (int promise \<Rightarrow> int promise) \<Rightarrow> sdk \<Rightarrow> sdk" where
  "sj_settle n f s =
     (case streamingJobs s n of
        None \<Rightarrow> s
      | Some j \<Rightarrow>
          s\<lparr>streamingJobs := (streamingJobs s)(n \<mapsto> j\<lparr>sj_promise := f (sj_promise j)\<rparr>)\<rparr>)"

text \<open>The callback handed to \<open>setTimeout\<close> in \<open>sendStreamingJob\<close>.\<close>

definition streaming_timer :: "nat \<Rightarrow> sdk \<Rightarrow> sdk" where
  "streaming_timer n s =
     (case streamingJobs s n of
        None \<Rightarrow> s
      | Some j \<Rightarrow>
          sj_settle n (reject (TimeoutError ''Code execution timeout after '' (sj_timeout j)))
            (streaming_cleanup n s))"

text \<open>
  The function \<open>outputListener\<close> is \<open>async\<close>. A call runs synchronously up to its first
  suspension: the id check, and the synchronous part of \<open>parseOutput\<close>, which decodes
  the line, mutates the \<open>Execution\<close> and invokes the callback. The call is then suspended
  at \<open>await\<close> until the promise of \<open>parseOutput\<close> settles; other events can be handled
  in between. The suspended calls of a job are numbered in call order and kept with the
  outcome their \<open>await\<close> will deliver: \<open>None\<close> when \<open>parseOutput\<close> completes, \<open>Some e\<close>
  when it rejects with \<open>e\<close>.
\<close>

definition outputListener :: "int \<Rightarrow> nat \<Rightarrow> output_chunk \<Rightarrow> sdk \<Rightarrow> sdk" where
  "outputListener now n res s =
     (case streamingJobs s n of
        None \<Rightarrow> s
      | Some j \<Rightarrow>
          if oc_jobId res \<noteq> sj_jobId j then s
          else
            (case parseOutput now (sj_execution j) (oc_line res) (sj_opts j) of
               (ex, calls, failure) \<Rightarrow>
                 s\<lparr>streamingJobs := (streamingJobs s)(n \<mapsto>
                      j\<lparr>sj_execution := ex,
                        sj_suspended := sj_suspended j @ [(sj_calls j, failure)],
                        sj_calls := Suc (sj_calls j)\<rparr>)\<rparr>))"

text \<open>
  The rest of a suspended call of \<open>outputListener\<close>, run when the runtime resumes call
  \<open>k\<close> of job \<open>n\<close>: the \<open>catch\<close> branch when the awaited promise rejected, otherwise the
  test of \<open>execution.error\<close> as the object is at that moment. \<open>Date.now()\<close> reads \<open>now\<close>.
  Resuming a call that is not suspended does nothing.
\<close>

definition outputListener_resume :: "int \<Rightarrow> nat \<Rightarrow> nat \<Rightarrow> sdk \<Rightarrow> sdk" where
  "outputListener_resume now n k s =
     (case streamingJobs s n of
        None \<Rightarrow> s
      | Some j \<Rightarrow>
          (case map_of (sj_suspended j) k of
             None \<Rightarrow> s
           | Some failure \<Rightarrow>
               (let j1 = j\<lparr>sj_suspended := filter (\<lambda>(i, f). i \<noteq> k) (sj_suspended j)\<rparr>;
                    s1 = s\<lparr>streamingJobs := (streamingJobs s)(n \<mapsto> j1)\<rparr>
                in case failure of
                     Some e \<Rightarrow> sj_settle n (reject e) (streaming_cleanup n s1)
                   | None \<Rightarrow>
                       if error (sj_execution j1) \<noteq> None then
                         (let d = now - (case startTime (sj_metadata j1) of
                                           None \<Rightarrow> 0 | Some t \<Rightarrow> t);
                              md = (sj_metadata j1)\<lparr>endTime := Some now, duration := Some d\<rparr>;
                              s2 = s1\<lparr>streamingJobs := (streamingJobs s1)(n \<mapsto>
                                      j1\<lparr>sj_metadata := md\<rparr>)\<rparr>;
                              s3 = streaming_cleanup n s2;
                              s4 = s3\<lparr>metricsCollector :=
                                        recordExecution (real_of_int d) (metricsCollector s3)\<rparr>
                          in sj_settle n (resolve now) s4)
                       else s1)))"

text \<open>
  The value the caller of \<open>sendStreamingJob\<close> holds once the promise is fulfilled: the
  object \<open>{execution, metadata, timestamp}\<close>, whose first two properties are the
  executor's own objects.
\<close>

definition streaming_result :: "streaming_job \<Rightarrow> execution_result option" where
  "streaming_result j =
     (case sj_promise j of
        Fulfilled ts \<Rightarrow>
          Some \<lparr>er_execution = sj_execution j, er_metadata = sj_metadata j, er_timestamp = ts\<rparr>
      | _ \<Rightarrow> None)"

subsection \<open>runTerminal\<close>

text \<open>
  The promise executor of \<open>runTerminal\<close>; \<open>now\<close> is the value of \<open>startTime\<close>. The
  statements before it (waiting for the connection, \<open>checkRateLimit\<close>, the sandbox
  lookup) throw before any job exists or fall through to the executor.
\<close>

definition runTerminal ::
  "int \<Rightarrow> string \<Rightarrow> run_code_options option \<Rightarrow> sdk \<Rightarrow> sdk_error + nat \<times> sdk" where
  "runTerminal now jobId opts s =
     (case socket s of
        None \<Rightarrow> Inl (ConnectionError ''Socket not connected'')
      | Some _ \<Rightarrow>
          (let n = nextClosure s;
               job = \<lparr>tj_jobId = jobId,
                      tj_timeout = or_default (opts_timeoutMs opts) (timeout s),
                      tj_timeoutHandle = True, tj_timer = Armed, tj_startTime = now,
                      tj_output = [], tj_opts = opts, tj_promise = Pending\<rparr>;
               s1 = s\<lparr>nextClosure := Suc n, terminalJobs := (terminalJobs s)(n \<mapsto> job)\<rparr>;
               s2 = trackListener STREAM (StreamListener n) s1;
               s3 = trackListener STREAM_END (EndListener n) s2;
               s4 = socket_on STREAM (StreamListener n) s3;
               s5 = socket_on STREAM_END (EndListener n) s4;
               s6 = socket_emit TERMINAL jobId s5
           in Inr (n, s6)))"

text \<open>The function \<open>cleanup\<close> of \<open>runTerminal\<close>.\<close>

definition terminal_cleanup :: "nat \<Rightarrow> sdk \<Rightarrow> sdk" where
  "terminal_cleanup n s =
     (case terminalJobs s n of
        None \<Rightarrow> s
      | Some j \<Rightarrow>
          (let j1 = (if tj_timeoutHandle j
                     then j\<lparr>tj_timer := clearTimeout (tj_timer j),
                            tj_timeoutHandle := False\<rparr>
                     else j);
               s1 = s\<lparr>terminalJobs := (terminalJobs s)(n \<mapsto> j1)\<rparr>;
               s2 = removeListener STREAM (StreamListener n) s1;
               s3 = removeListener STREAM_END (EndListener n) s2;
               s4 = socket_off STREAM (StreamListener n) s3
           in socket_off STREAM_END (EndListener n) s4))"

definition tj_settle :: "nat \<Rightarrow> (string promise \<Rightarrow> string promise) \<Rightarrow> sdk \<Rightarrow> sdk" where
  "tj_settle n f s =
     (case terminalJobs s n of
        None \<Rightarrow> s
      | Some j \<Rightarrow>
          s\<lparr>terminalJobs := (terminalJobs s)(n \<mapsto> j\<lparr>tj_promise := f (tj_promise j)\<rparr>)\<rparr>)"

text \<open>The callback handed to \<open>setTimeout\<close> in \<open>runTerminal\<close>.\<close>

definition terminal_timer :: "nat \<Rightarrow> sdk \<Rightarrow> sdk" where
  "terminal_timer n s =
     (case terminalJobs s n of
        None \<Rightarrow> s
      | Some j \<Rightarrow>
          tj_settle n (reject (TimeoutError ''Terminal command timeout after '' (tj_timeout j)))
            (terminal_cleanup n s))"

text \<open>
  The function \<open>streamListener\<close>. The callback is neither awaited nor guarded: a failure
  of the callback leaves the listener (second component) after the output was extended.
  An empty chunk is falsy and skipped.
\<close>

definition streamListener ::
  "int \<Rightarrow> nat \<Rightarrow> stream_chunk_response \<Rightarrow> sdk \<Rightarrow> sdk \<times> sdk_error option" where
  "streamListener now n res s =
     (case terminalJobs s n of
        None \<Rightarrow> (s, None)
      | Some j \<Rightarrow>
          if sc_jobId res = tj_jobId j \<and> sc_chunk res \<noteq> [] then
            (let s1 = s\<lparr>terminalJobs := (terminalJobs s)(n \<mapsto>
                         j\<lparr>tj_output := tj_output j @ sc_chunk res\<rparr>)\<rparr>;
                 ts = or_default (sc_timestamp res) (now * 1000)
             in (s1, snd (invoke (tj_opts j) onStdout CalledOnStdout
                            \<lparr>om_line = Some (JStr (sc_chunk res)), om_timestamp = ts,
                             om_error = False\<rparr>)))
          else (s, None))"

text \<open>The function \<open>endListener\<close>.\<close>

definition endListener :: "int \<Rightarrow> nat \<Rightarrow> stream_end_response \<Rightarrow> sdk \<Rightarrow> sdk" where
  "endListener now n res s =
     (case terminalJobs s n of
        None \<Rightarrow> s
      | Some j \<Rightarrow>
          if se_jobId res = tj_jobId j then
            (let s1 = terminal_cleanup n s;
                 s2 = s1\<lparr>metricsCollector :=
                          mc_recordRequest True (real_of_int (now - tj_startTime j))
                            (metricsCollector s1)\<rparr>
             in tj_settle n (resolve (tj_output j)) s2)
          else s)"

subsection \<open>Events of the runtime\<close>

text \<open>
  What a registered function does when the socket calls it with a payload. The second
  component is a failure that escapes the function. A function is only ever registered
  for the event whose payload it expects.
\<close>

fun call_listener :: "int \<Rightarrow> message \<Rightarrow> listener \<Rightarrow> sdk \<Rightarrow> sdk \<times> sdk_error option" where
  "call_listener now (JobResult res) (ResultListener n) s = (sendJob_listener n res s, None)"
| "call_listener now (JobOutput res) (OutputListener n) s = (outputListener now n res s, None)"
| "call_listener now (Stream res) (StreamListener n) s = streamListener now n res s"
| "call_listener now (StreamEnd res) (EndListener n) s = (endListener now n res s, None)"
| "call_listener now m l s = (s, None)"

text \<open>
  The socket's emitter calls the functions registered for the event one after the other,
  on a copy of the handler list taken before the first call; a failure that escapes a
  function ends the loop.
\<close>

fun deliver :: "int \<Rightarrow> message \<Rightarrow> listener list \<Rightarrow> sdk \<Rightarrow> sdk" where
  "deliver now m [] s = s"
| "deliver now m (l # ls) s =
     (case call_listener now m l s of
        (s', None) \<Rightarrow> deliver now m ls s'
      | (s', Some e) \<Rightarrow> s')"

definition handlers_for :: "string \<Rightarrow> sdk \<Rightarrow> listener list" where
  "handlers_for event s =
     (case socket s of
        None \<Rightarrow> []
      | Some hs \<Rightarrow> map snd (filter (\<lambda>(e, l). e = event) hs))"

definition receive :: "int \<Rightarrow> message \<Rightarrow> sdk \<Rightarrow> sdk" where
  "receive now m s = deliver now m (handlers_for (event_of m) s) s"

text \<open>
  A timer of the runtime expires: the callback runs if the timer is still armed, and the
  timer is spent.
\<close>

datatype timer_id = UnaryTimer nat | StreamingTimer nat | TerminalTimer nat

fun fire :: "timer_id \<Rightarrow> sdk \<Rightarrow> sdk" where
  "fire (UnaryTimer n) s =
     (case unaryJobs s n of
        None \<Rightarrow> s
      | Some j \<Rightarrow>
          if uj_timer j = Armed
          then sendJob_timer n (s\<lparr>unaryJobs := (unaryJobs s)(n \<mapsto> j\<lparr>uj_timer := Fired\<rparr>)\<rparr>)
          else s)"
| "fire (StreamingTimer n) s =
     (case streamingJobs s n of
        None \<Rightarrow> s
      | Some j \<Rightarrow>
          if sj_timer j = Armed
          then streaming_timer n
                 (s\<lparr>streamingJobs := (streamingJobs s)(n \<mapsto> j\<lparr>sj_timer := Fired\<rparr>)\<rparr>)
          else s)"
| "fire (TerminalTimer n) s =
     (case terminalJobs s n of
        None \<Rightarrow> s
      | Some j \<Rightarrow>
          if tj_timer j = Armed
          then terminal_timer n
                 (s\<lparr>terminalJobs := (terminalJobs s)(n \<mapsto> j\<lparr>tj_timer := Fired\<rparr>)\<rparr>)
          else s)"

text \<open>The handler of the socket's \<open>disconnect\<close> event.\<close>

definition on_disconnect :: "sdk \<Rightarrow> sdk" where
  "on_disconnect s = cleanupAllListeners (s\<lparr>isConnected := False\<rparr>)"

text \<open>
  What the runtime does next: a timer expires, a payload arrives, the socket disconnects,
  or suspended call \<open>k\<close> of the output listener of job \<open>n\<close> is resumed (\<open>Resumes n k\<close>).
\<close>

datatype event = TimerFires timer_id | Received message | Disconnect | Resumes nat nat

fun step :: "int \<times> event \<Rightarrow> sdk \<Rightarrow> sdk" where
  "step (now, TimerFires t) s = fire t s"
| "step (now, Received m) s = receive now m s"
| "step (now, Disconnect) s = on_disconnect s"
| "step (now, Resumes n k) s = outputListener_resume now n k s"

text \<open>A run handles the events one at a time, each stamped with the clock value.\<close>

definition run :: "(int \<times> event) list \<Rightarrow> sdk \<Rightarrow> sdk" where
  "run evs s = foldl (\<lambda>st ev. step ev st) s evs"


section \<open>Notions used in the statements\<close>

text \<open>
  The ways in which the promise of a \<open>sendJob\<close> call can be settled: by the listener
  (fulfilled with the output, or rejected with a \<open>SandboxError\<close>), or by the timer
  (rejected with the \<open>TimeoutError\<close> for the job's timeout).
\<close>

fun settled_by_result :: "json promise \<Rightarrow> bool" where
  "settled_by_result (Fulfilled out) = True"
| "settled_by_result (Rejected (SandboxError m)) = True"
| "settled_by_result p = False"

fun settled_by_timeout :: "int \<Rightarrow> json promise \<Rightarrow> bool" where
  "settled_by_timeout t (Rejected (TimeoutError p t')) = (p = ''Job timeout after '' \<and> t' = t)"
| "settled_by_timeout t p = False"

text \<open>
  The three situations of a \<open>sendJob\<close> call, told apart by the timer: still waiting;
  settled by the listener, which disarmed the timer; settled by the timer, which fired.
\<close>

definition unary_state_ok :: "unary_job \<Rightarrow> bool" where
  "unary_state_ok j =
     (case uj_timer j of
        Armed \<Rightarrow> uj_timeoutHandle j \<and> uj_promise j = Pending
      | Cleared \<Rightarrow> \<not> uj_timeoutHandle j \<and> settled_by_result (uj_promise j)
      | Fired \<Rightarrow> settled_by_timeout (uj_timeout j) (uj_promise j))"

text \<open>Callbacks that complete normally on every argument.\<close>

definition callbacks_succeed :: "run_code_options option \<Rightarrow> bool" where
  "callbacks_succeed opts =
     (case opts of
        None \<Rightarrow> True
      | Some os \<Rightarrow>
          (\<forall>cb x. onStdout os = Some cb \<longrightarrow> cb x = None) \<and>
          (\<forall>cb x. onStderr os = Some cb \<longrightarrow> cb x = None) \<and>
          (\<forall>cb x. onResult os = Some cb \<longrightarrow> cb x = None) \<and>
          (\<forall>cb x. onError os = Some cb \<longrightarrow> cb x = None))"

text \<open>
  The arrival of a \<open>job:output\<close> chunk whose line decodes to the given object, and of the
  payloads of the raw terminal mode.
\<close>

definition chunk :: "string \<Rightarrow> (string \<times> json) list \<Rightarrow> event" where
  "chunk jobId kvs = Received (JobOutput \<lparr>oc_jobId = jobId, oc_line = Some (JObj kvs)\<rparr>)"

definition stream_chunk :: "string \<Rightarrow> string \<Rightarrow> event" where
  "stream_chunk jobId c =
     Received (Stream \<lparr>sc_jobId = jobId, sc_chunk = c, sc_timestamp = None\<rparr>)"

definition stream_end :: "string \<Rightarrow> int option \<Rightarrow> event" where
  "stream_end jobId code = Received (StreamEnd \<lparr>se_jobId = jobId, se_exitCode = code\<rparr>)"

text \<open>Sample arguments for the concrete runs below.\<close>

definition some_metadata :: execution_metadata where
  "some_metadata = \<lparr>executionId = ''e1'', sandboxId = ''sb1'', startTime = Some 0,
                     endTime = None, duration = None\<rparr>"

definition failing_opts :: run_code_options where
  "failing_opts = \<lparr>onStdout = Some (\<lambda>m. Some (CallbackFailure ''boom'')), onStderr = None,
                    onResult = None, onError = None, timeoutMs = None\<rparr>"

definition logging_opts :: run_code_options where
  "logging_opts = \<lparr>onStdout = Some (\<lambda>m. None), onStderr = None,
                    onResult = None, onError = Some (\<lambda>e. None), timeoutMs = Some 5000\<rparr>"

text \<open>The correlation id a payload carries.\<close>

fun jobId_of :: "message \<Rightarrow> string" where
  "jobId_of (JobResult r) = jr_jobId r"
| "jobId_of (JobOutput r) = oc_jobId r"
| "jobId_of (Stream r) = sc_jobId r"
| "jobId_of (StreamEnd r) = se_jobId r"

text \<open>
  How the closure variables of one \<open>sendJob\<close> call may change over time: id and timeout
  stay, a settled promise stays as it is, a timer that is no longer armed is never armed
  again, and the situation stays one of the three above.
\<close>

definition unary_evolves :: "unary_job \<Rightarrow> unary_job \<Rightarrow> bool" where
  "unary_evolves j j' =
     (uj_jobId j' = uj_jobId j \<and> uj_timeout j' = uj_timeout j
      \<and> (unary_state_ok j \<longrightarrow> unary_state_ok j')
      \<and> (uj_promise j \<noteq> Pending \<longrightarrow> uj_promise j' = uj_promise j)
      \<and> (uj_timer j \<noteq> Armed \<longrightarrow> uj_timer j' \<noteq> Armed))"

text \<open>The state a call leaves: the state as it was when the promise is rejected at once.\<close>

definition state_after :: "sdk \<Rightarrow> sdk_error + nat \<times> sdk \<Rightarrow> sdk" where
  "state_after s r = (case r of Inl e \<Rightarrow> s | Inr (n, s') \<Rightarrow> s')"

text \<open>
  A session with three jobs in flight: two \<open>sendJob\<close> calls with ids A and B (closures 0
  and 1) and a streaming job with id C (closure 2).
\<close>

definition session1 :: sdk where
  "session1 = state_after (new_SandboxSDK 0 None)
                (sendJob ''job:file'' ''A'' None (new_SandboxSDK 0 None))"

definition session2 :: sdk where
  "session2 = state_after session1 (sendJob ''job:file'' ''B'' None session1)"

definition session3 :: sdk where
  "session3 = state_after session2
                (sendStreamingJob EXECUTE ''C'' new_Execution some_metadata None session2)"

text \<open>
  Issuing one \<open>sendJob\<close> call per id and letting the timer of each expire before the next
  is issued.
\<close>

fun issue_and_expire :: "string list \<Rightarrow> sdk \<Rightarrow> sdk" where
  "issue_and_expire [] s = s"
| "issue_and_expire (jobId # ids) s =
     (case sendJob ''job:file'' jobId None s of
        Inl e \<Rightarrow> s
      | Inr (n, s') \<Rightarrow> issue_and_expire ids (fire (UnaryTimer n) s'))"

text \<open>
  Resumptions of suspended listener calls of job \<open>n\<close>, given by time and call number,
  and the \<open>Execution\<close> that the four chunks of the streaming scenario assemble.
\<close>

definition resumptions :: "nat \<Rightarrow> (int \<times> nat) list \<Rightarrow> (int \<times> event) list" where
  "resumptions n rs = map (\<lambda>(t, k). (t, Resumes n k)) rs"

definition assembled_execution :: execution where
  "assembled_execution =
     \<lparr>results = [],
      logs = \<lparr>stdout = [Some (JStr ''a''), Some (JStr ''b'')], stderr = []\<rparr>,
      error = Some \<lparr>ee_name = Some (JStr ''ValueError''), ee_value = Some (JStr ''bad''),
                    ee_traceback = Some (JStr ''...'')\<rparr>,
      executionCount = Some (JNum 1)\<rparr>"

text \<open>
  The four chunks of the scenario for the job with id \<open>J\<close> and closure \<open>n\<close>, arriving in
  order at the given times, with any resumptions of the job's suspended calls before and
  between them.
\<close>

definition scenario ::
  "string \<Rightarrow> nat \<Rightarrow> (int \<times> nat) list \<Rightarrow> int \<Rightarrow> (int \<times> nat) list \<Rightarrow> int \<Rightarrow>
   (int \<times> nat) list \<Rightarrow> int \<Rightarrow> (int \<times> nat) list \<Rightarrow> int \<Rightarrow> (int \<times> event) list" where
  "scenario J n r0 t1 r1 t2 r2 t3 r3 t4 =
     resumptions n r0 @ [(t1, chunk J [(''type'', JStr ''stdout''), (''text'', JStr ''a'')])] @
     resumptions n r1 @ [(t2, chunk J [(''type'', JStr ''stdout''), (''text'', JStr ''b'')])] @
     resumptions n r2 @ [(t3, chunk J [(''type'', JStr ''execution_count''),
                                       (''execution_count'', JNum 1)])] @
     resumptions n r3 @ [(t4, chunk J [(''type'', JStr ''error''), (''name'', JStr ''ValueError''),
                                       (''value'', JStr ''bad''), (''traceback'', JStr ''...'')])]"

text \<open>
  Two situations of a streaming job. Waiting: its listener is the one function
  registered for the output event, the promise is pending, the timer armed, \<open>c\<close> calls
  have been made, and every suspended call awaits a promise that completes. Finished:
  no function is registered for the output event, the promise is fulfilled and the timer
  disarmed.
\<close>

definition all_complete :: "(nat \<times> sdk_error option) list \<Rightarrow> bool" where
  "all_complete xs = list_all (\<lambda>(k, f). f = None) xs"

definition streaming_waiting ::
  "nat \<Rightarrow> string \<Rightarrow> run_code_options option \<Rightarrow> execution \<Rightarrow> nat \<Rightarrow> sdk \<Rightarrow> bool" where
  "streaming_waiting n J opts ex c s =
     (handlers_for JOB_OUTPUT s = [OutputListener n] \<and>
      (case streamingJobs s n of
         None \<Rightarrow> False
       | Some j \<Rightarrow>
           sj_jobId j = J \<and> sj_opts j = opts \<and> sj_execution j = ex \<and> sj_calls j = c \<and>
           sj_promise j = Pending \<and> sj_timer j = Armed \<and> sj_timeoutHandle j \<and>
           all_complete (sj_suspended j)))"

definition streaming_finished :: "nat \<Rightarrow> execution \<Rightarrow> sdk \<Rightarrow> bool" where
  "streaming_finished n ex s =
     (handlers_for JOB_OUTPUT s = [] \<and>
      (case streamingJobs s n of
         None \<Rightarrow> False
       | Some j \<Rightarrow>
           sj_execution j = ex \<and> streaming_result j \<noteq> None \<and> sj_timer j = Cleared \<and>
           \<not> sj_timeoutHandle j \<and> all_complete (sj_suspended j)))"

text \<open>Whether call \<open>k\<close> of job \<open>n\<close> is suspended.\<close>

definition suspended :: "nat \<Rightarrow> nat \<Rightarrow> sdk \<Rightarrow> bool" where
  "suspended n k s =
     (case streamingJobs s n of None \<Rightarrow> False | Some j \<Rightarrow> k \<in> fst ` set (sj_suspended j))"

text \<open>The settlement that a result message asks for.\<close>

definition outcome_of :: "job_result_response \<Rightarrow> json promise" where
  "outcome_of res =
     (case jr_output res of
        Some out \<Rightarrow>
          if jr_success res then Fulfilled out
          else Rejected (SandboxError (failure_text (jr_error res)))
      | None \<Rightarrow> Rejected (SandboxError (failure_text (jr_error res))))"


section \<open>Properties of the RateLimiter\<close>

lemma rl_run_snoc: "rl_run (calls @ [c]) rl = rl_step c (rl_run calls rl)"
  by (simp add: rl_run_def)

lemma recorded_snoc:
  "recorded (calls @ [c]) = recorded calls @ (if snd c = RecordRequest then [fst c] else [])"
  by (simp add: recorded_def)

lemma window_append: "window now (xs @ ys) = window now xs @ window now ys"
  by (simp add: window_def)

text \<open>Pruning at an earlier instant removes nothing that is in the window later.\<close>

lemma window_prune:
  "t \<le> now \<Longrightarrow> window now (filter (\<lambda>ts. ts > t - 60000) xs) = window now xs"
  unfolding window_def filter_filter by (rule filter_cong) auto

lemma max_step: "maxRequestsPerMinute (rl_step c rl) = maxRequestsPerMinute rl"
proof (cases c)
  case (Pair t k)
  then show ?thesis
    by (cases k) (simp_all add: canMakeRequest_def Let_def rl_recordRequest_def
        incrementConcurrentJobs_def decrementConcurrentJobs_def)
qed

lemma max_new: "maxRequestsPerMinute (rl_run calls (new_RateLimiter m)) = m"
  by (induction calls rule: rev_induct)
     (simp_all add: rl_run_snoc max_step, simp add: rl_run_def new_RateLimiter_def)

lemma stored_window:
  "\<forall>t \<in> set (map fst calls). t \<le> now \<Longrightarrow>
   window now (requestTimestamps (rl_run calls (new_RateLimiter m))) = window now (recorded calls)"
proof (induction calls rule: rev_induct)
  case Nil
  then show ?case by (simp add: rl_run_def new_RateLimiter_def recorded_def)
next
  case (snoc c calls)
  obtain t k where c: "c = (t, k)" by (cases c)
  from snoc.prems have le: "t \<le> now" and prev: "\<forall>t \<in> set (map fst calls). t \<le> now"
    by (auto simp: c)
  note IH = snoc.IH [OF prev]
  show ?case
  proof (cases k)
    case CanMakeRequest
    then show ?thesis using IH le
      by (simp add: rl_run_snoc c recorded_snoc canMakeRequest_def Let_def window_prune)
  next
    case RecordRequest
    then show ?thesis using IH
      by (simp add: rl_run_snoc c recorded_snoc rl_recordRequest_def window_append)
  next
    case Increment
    then show ?thesis using IH
      by (simp add: rl_run_snoc c recorded_snoc incrementConcurrentJobs_def Let_def)
  next
    case Decrement
    then show ?thesis using IH
      by (simp add: rl_run_snoc c recorded_snoc decrementConcurrentJobs_def Let_def)
  qed
qed

lemma canMake_stored:
  "requestTimestamps (snd (canMakeRequest now rl)) = window now (requestTimestamps rl)"
  by (auto simp: canMakeRequest_def Let_def window_def intro: filter_cong)

lemma canMake_verdict:
  "fst (canMakeRequest now rl) =
     (int (length (window now (requestTimestamps rl))) < maxRequestsPerMinute rl)"
proof -
  have "filter (\<lambda>ts. ts > now - 60000) (requestTimestamps rl) = window now (requestTimestamps rl)"
    unfolding window_def by (rule filter_cong) auto
  then show ?thesis by (auto simp: canMakeRequest_def Let_def)
qed

lemma sorted_recorded: "sorted (map fst calls) \<Longrightarrow> sorted (recorded calls)"
  unfolding recorded_def by (induction calls) auto

lemma sorted_hd_Min: "sorted xs \<Longrightarrow> xs \<noteq> [] \<Longrightarrow> hd xs = Min (set (xs::int list))"
  by (cases xs) (auto intro!: Min_eqI [symmetric])

lemma getRetryAfter_hd:
  "getRetryAfter now rl =
     (if requestTimestamps rl = [] then 0
      else max (60000 - (now - hd (requestTimestamps rl))) 0)"
  by (simp add: getRetryAfter_def Let_def split: list.splits)

text \<open>
  Claim C6. Take any history of calls on a limiter created with ceiling \<open>m\<close>, read off a
  clock that does not run backwards, and let \<open>now\<close> be no earlier than the last call. Then
  \<open>canMakeRequest\<close> at \<open>now\<close> admits exactly when fewer than \<open>m\<close> of the timestamps recorded
  so far lie in the rolling window (a timestamp leaves the window once it is 60000 ms
  old); it leaves exactly the window stored; \<open>getRetryAfter\<close> then returns
  \<open>60000 - (now - oldest)\<close> clamped at zero for the oldest timestamp of the window, and
  zero for an empty window. In any state \<open>getRetryAfter\<close> computes that formula from the
  first stored timestamp.
\<close>

theorem rate_limiter_window:
  assumes mono: "sorted (map fst calls)"
      and past: "\<forall>t \<in> set (map fst calls). t \<le> now"
  shows "fst (canMakeRequest now (rl_run calls (new_RateLimiter m))) =
           (int (length (window now (recorded calls))) < m)
       \<and> requestTimestamps (snd (canMakeRequest now (rl_run calls (new_RateLimiter m)))) =
           window now (recorded calls)
       \<and> getRetryAfter now (snd (canMakeRequest now (rl_run calls (new_RateLimiter m)))) =
           (if window now (recorded calls) = [] then 0
            else max (60000 - (now - Min (set (window now (recorded calls))))) 0)
       \<and> getRetryAfter now (rl_run calls (new_RateLimiter m)) =
           (if requestTimestamps (rl_run calls (new_RateLimiter m)) = [] then 0
            else max (60000 - (now - hd (requestTimestamps (rl_run calls (new_RateLimiter m))))) 0)"
proof -
  let ?rl = "rl_run calls (new_RateLimiter m)"
  let ?w = "window now (recorded calls)"
  have sw: "window now (requestTimestamps ?rl) = ?w"
    by (rule stored_window [OF past])
  have verdict: "fst (canMakeRequest now ?rl) = (int (length ?w) < m)"
    by (simp add: canMake_verdict sw max_new)
  have st: "requestTimestamps (snd (canMakeRequest now ?rl)) = ?w"
    by (simp add: canMake_stored sw)
  have "sorted ?w" unfolding window_def
    by (rule sorted_wrt_filter) (rule sorted_recorded [OF mono])
  then have "?w \<noteq> [] \<Longrightarrow> hd ?w = Min (set ?w)" by (rule sorted_hd_Min)
  then have retry: "getRetryAfter now (snd (canMakeRequest now ?rl)) =
           (if ?w = [] then 0 else max (60000 - (now - Min (set ?w))) 0)"
    by (simp add: getRetryAfter_hd st)
  show ?thesis using verdict st retry getRetryAfter_hd [of now ?rl] by blast
qed

theorem rate_limiter_window_witness:
  "sorted (map fst [(0::int, RecordRequest), (1000, CanMakeRequest), (2000, RecordRequest)])
   \<and> fst (canMakeRequest 60500
        (rl_run [(0, RecordRequest), (1000, CanMakeRequest), (2000, RecordRequest)]
           (new_RateLimiter 2)))
   \<and> getRetryAfter 60500 (snd (canMakeRequest 60500
        (rl_run [(0, RecordRequest), (1000, CanMakeRequest), (2000, RecordRequest)]
           (new_RateLimiter 2)))) = 1500"
  using rate_limiter_window
    [of "[(0, RecordRequest), (1000, CanMakeRequest), (2000, RecordRequest)]" 60500 2]
  by (simp add: recorded_def window_def)

text \<open>The stored counter is the number of increments minus the number of decrements.\<close>

lemma concurrent_counter_unfloored:
  "concurrentJobs (rl_run calls (new_RateLimiter m)) =
     int (length (filter (\<lambda>c. snd c = Increment) calls)) -
     int (length (filter (\<lambda>c. snd c = Decrement) calls))"
proof (induction calls rule: rev_induct)
  case Nil
  then show ?case by (simp add: rl_run_def new_RateLimiter_def)
next
  case (snoc c calls)
  obtain t k where c: "c = (t, k)" by (cases c)
  show ?case using snoc.IH
    by (cases k)
       (simp_all add: rl_run_snoc c canMakeRequest_def rl_recordRequest_def
          incrementConcurrentJobs_def decrementConcurrentJobs_def Let_def)
qed

text \<open>
  Claim C7, evaluated on a fresh limiter with one decrement and no increment:
  \<open>decrementConcurrentJobs\<close> returns the floored value 0, but the field it stores, which
  \<open>getConcurrentJobs\<close> returns, is -1.
\<close>

theorem decrement_stores_negative:
  "fst (decrementConcurrentJobs default_RateLimiter) = 0
   \<and> getConcurrentJobs (snd (decrementConcurrentJobs default_RateLimiter)) = - 1
   \<and> getConcurrentJobs (rl_run [(0, Decrement)] default_RateLimiter) = - 1"
  by (simp add: rl_run_def default_RateLimiter_def new_RateLimiter_def
      decrementConcurrentJobs_def getConcurrentJobs_def Let_def)


section \<open>Properties of the MetricsCollector\<close>

lemma foldl_plus_sum_list: "foldl (\<lambda>a b. a + b) (z::real) xs = z + sum_list xs"
  by (induction xs arbitrary: z) simp_all

lemma updateAverage_metrics:
  "totalRequests (metrics (updateAverageResponseTime mc)) = totalRequests (metrics mc)"
  "successfulRequests (metrics (updateAverageResponseTime mc)) = successfulRequests (metrics mc)"
  "failedRequests (metrics (updateAverageResponseTime mc)) = failedRequests (metrics mc)"
  "responseTimes (updateAverageResponseTime mc) = responseTimes mc"
  by (simp_all add: updateAverageResponseTime_def Let_def)

lemma updateAverage_mean:
  "responseTimes mc \<noteq> [] \<Longrightarrow>
   averageResponseTime (metrics (updateAverageResponseTime mc)) =
     sum_list (responseTimes mc) / real (length (responseTimes mc))"
  by (simp add: updateAverageResponseTime_def Let_def foldl_plus_sum_list)

lemma record_ring: "responseTimes (mc_recordRequest ok x mc) = ring_push x (responseTimes mc)"
  by (simp add: mc_recordRequest_def Let_def updateAverage_metrics ring_push_def)

lemma ring_push_ne: "ring_push x xs \<noteq> []"
  by (cases xs) (auto simp: ring_push_def)

lemma record_counters:
  "totalRequests (metrics (mc_recordRequest ok x mc)) = totalRequests (metrics mc) + 1"
  "successfulRequests (metrics (mc_recordRequest ok x mc)) =
     successfulRequests (metrics mc) + (if ok then 1 else 0)"
  "failedRequests (metrics (mc_recordRequest ok x mc)) =
     failedRequests (metrics mc) + (if ok then 0 else 1)"
  by (simp_all add: mc_recordRequest_def Let_def updateAverage_metrics)

lemma record_mean:
  "averageResponseTime (metrics (mc_recordRequest ok x mc)) =
     sum_list (responseTimes (mc_recordRequest ok x mc)) /
     real (length (responseTimes (mc_recordRequest ok x mc)))"
proof -
  let ?m1 = "(metrics mc)\<lparr>totalRequests := totalRequests (metrics mc) + 1\<rparr>"
  let ?mid = "\<lparr>metrics = (if ok then ?m1\<lparr>successfulRequests := successfulRequests ?m1 + 1\<rparr>
                           else ?m1\<lparr>failedRequests := failedRequests ?m1 + 1\<rparr>),
               responseTimes = ring_push x (responseTimes mc)\<rparr>"
  have eq: "mc_recordRequest ok x mc = updateAverageResponseTime ?mid"
    by (simp add: mc_recordRequest_def Let_def ring_push_def)
  have ne: "responseTimes ?mid \<noteq> []" by (simp add: ring_push_ne)
  show ?thesis unfolding eq updateAverage_metrics by (rule updateAverage_mean [OF ne])
qed

lemma feed_snoc: "feed (xs @ [(ok, x)]) mc = mc_recordRequest ok x (feed xs mc)"
  by (simp add: feed_def)

lemma ring_push_last:
  "ring_push x (drop (length ys - 1000) ys) = drop (Suc (length ys) - 1000) (ys @ [x])"
proof (cases "length ys < 1000")
  case True
  then show ?thesis by (simp add: ring_push_def)
next
  case False
  then have "Suc (length ys) - 1000 = Suc (length ys - 1000)" by simp
  with False show ?thesis
    by (simp add: ring_push_def tl_drop drop_Suc [symmetric] del: drop_Suc)
qed

lemma feed_ring:
  "responseTimes (feed xs (new_MetricsCollector t)) = drop (length xs - 1000) (map snd xs)"
proof (induction xs rule: rev_induct)
  case Nil
  then show ?case by (simp add: feed_def new_MetricsCollector_def)
next
  case (snoc a xs)
  obtain ok x where a: "a = (ok, x)" by (cases a)
  show ?case using ring_push_last [of x "map snd xs"]
    by (simp add: a feed_snoc record_ring snoc.IH)
qed

lemma feed_counters:
  "totalRequests (metrics (feed xs (new_MetricsCollector t))) = int (length xs)
   \<and> successfulRequests (metrics (feed xs (new_MetricsCollector t))) =
       int (length (filter fst xs))
   \<and> failedRequests (metrics (feed xs (new_MetricsCollector t))) =
       int (length (filter (\<lambda>s. \<not> fst s) xs))"
proof (induction xs rule: rev_induct)
  case Nil
  then show ?case by (simp add: feed_def new_MetricsCollector_def)
next
  case (snoc a xs)
  obtain ok x where a: "a = (ok, x)" by (cases a)
  show ?case using snoc.IH by (simp add: a feed_snoc record_counters)
qed

lemma feed_mean:
  "xs \<noteq> [] \<Longrightarrow> averageResponseTime (metrics (feed xs (new_MetricsCollector t))) =
     sum_list (responseTimes (feed xs (new_MetricsCollector t))) /
     real (length (responseTimes (feed xs (new_MetricsCollector t))))"
proof (induction xs rule: rev_induct)
  case Nil
  then show ?case by simp
next
  case (snoc a xs)
  obtain ok x where a: "a = (ok, x)" by (cases a)
  show ?case unfolding a feed_snoc by (rule record_mean)
qed

text \<open>
  Claim C8. One call of \<open>recordRequest\<close>, in any state, adds one to the total and one to
  exactly one of the success and fail counters, appends the sample and drops the oldest
  entry if the ring then holds more than 1000, and sets the average to the mean of the
  ring as it then is. Starting from a fresh collector, the ring after any sequence of
  samples holds the last 1000 of them in order and never more; and after 1001 samples
  the average is the mean of the last 1000, whatever the first sample was.
\<close>

theorem recordRequest_ring_mean:
  "totalRequests (metrics (mc_recordRequest ok x mc)) = totalRequests (metrics mc) + 1
   \<and> successfulRequests (metrics (mc_recordRequest ok x mc)) =
       successfulRequests (metrics mc) + (if ok then 1 else 0)
   \<and> failedRequests (metrics (mc_recordRequest ok x mc)) =
       failedRequests (metrics mc) + (if ok then 0 else 1)
   \<and> responseTimes (mc_recordRequest ok x mc) =
       (if length (responseTimes mc) \<ge> 1000 then tl (responseTimes mc @ [x])
        else responseTimes mc @ [x])
   \<and> averageResponseTime (metrics (mc_recordRequest ok x mc)) =
       sum_list (responseTimes (mc_recordRequest ok x mc)) /
       real (length (responseTimes (mc_recordRequest ok x mc)))
   \<and> responseTimes (feed xs (new_MetricsCollector t)) = drop (length xs - 1000) (map snd xs)
   \<and> length (responseTimes (feed xs (new_MetricsCollector t))) \<le> 1000
   \<and> (length rest = 1000 \<longrightarrow>
        averageResponseTime (metrics (feed (first # rest) (new_MetricsCollector t))) =
          sum_list (map snd rest) / 1000)"
proof -
  have ring: "responseTimes (mc_recordRequest ok x mc) =
       (if length (responseTimes mc) \<ge> 1000 then tl (responseTimes mc @ [x])
        else responseTimes mc @ [x])"
    by (simp add: record_ring ring_push_def)
  have cap: "length (responseTimes (feed xs (new_MetricsCollector t))) \<le> 1000"
    by (simp add: feed_ring)
  have evicted: "averageResponseTime (metrics (feed (first # rest) (new_MetricsCollector t))) =
          sum_list (map snd rest) / 1000" if "length rest = 1000"
    using that feed_mean [of "first # rest" t] by (simp add: feed_ring)
  show ?thesis using ring cap evicted record_counters [of ok x mc] record_mean [of ok x mc]
      feed_ring [of xs t]
    by simp
qed

theorem recordRequest_ring_mean_witness:
  "length (replicate 1000 (True, 5::real)) = 1000
   \<and> averageResponseTime
       (metrics (feed ((False, 1000000) # replicate 1000 (True, 5)) (new_MetricsCollector 0))) = 5"
  using recordRequest_ring_mean
    [of True 0 "new_MetricsCollector 0" "[]" 0 "replicate 1000 (True, 5)" "(False, 1000000)"]
  by (simp add: map_replicate_const sum_list_replicate)


section \<open>The effect of the primitives on the state\<close>


lemma removeListener_fields [simp]:
  "socket (removeListener e l s) = socket s"
  "isConnected (removeListener e l s) = isConnected s"
  "metricsCollector (removeListener e l s) = metricsCollector s"
  "timeout (removeListener e l s) = timeout s"
  "emitted (removeListener e l s) = emitted s"
  "nextClosure (removeListener e l s) = nextClosure s"
  "unaryJobs (removeListener e l s) = unaryJobs s"
  "streamingJobs (removeListener e l s) = streamingJobs s"
  "terminalJobs (removeListener e l s) = terminalJobs s"
  by (simp_all add: removeListener_def Let_def)

lemma trackListener_fields [simp]:
  "socket (trackListener e l s) = socket s"
  "isConnected (trackListener e l s) = isConnected s"
  "metricsCollector (trackListener e l s) = metricsCollector s"
  "timeout (trackListener e l s) = timeout s"
  "emitted (trackListener e l s) = emitted s"
  "nextClosure (trackListener e l s) = nextClosure s"
  "unaryJobs (trackListener e l s) = unaryJobs s"
  "streamingJobs (trackListener e l s) = streamingJobs s"
  "terminalJobs (trackListener e l s) = terminalJobs s"
  by (simp_all add: trackListener_def Let_def)

lemma socket_off_fields [simp]:
  "socket (socket_off e l s) = map_option (remove1 (e, l)) (socket s)"
  "isConnected (socket_off e l s) = isConnected s"
  "listeners (socket_off e l s) = listeners s"
  "metricsCollector (socket_off e l s) = metricsCollector s"
  "timeout (socket_off e l s) = timeout s"
  "emitted (socket_off e l s) = emitted s"
  "nextClosure (socket_off e l s) = nextClosure s"
  "unaryJobs (socket_off e l s) = unaryJobs s"
  "streamingJobs (socket_off e l s) = streamingJobs s"
  "terminalJobs (socket_off e l s) = terminalJobs s"
  by (simp_all add: socket_off_def)

lemma socket_on_fields [simp]:
  "socket (socket_on e l s) = map_option (\<lambda>hs. hs @ [(e, l)]) (socket s)"
  "isConnected (socket_on e l s) = isConnected s"
  "listeners (socket_on e l s) = listeners s"
  "metricsCollector (socket_on e l s) = metricsCollector s"
  "timeout (socket_on e l s) = timeout s"
  "emitted (socket_on e l s) = emitted s"
  "nextClosure (socket_on e l s) = nextClosure s"
  "unaryJobs (socket_on e l s) = unaryJobs s"
  "streamingJobs (socket_on e l s) = streamingJobs s"
  "terminalJobs (socket_on e l s) = terminalJobs s"
  by (simp_all add: socket_on_def)

lemma socket_emit_fields [simp]:
  "socket (socket_emit e i s) = socket s"
  "isConnected (socket_emit e i s) = isConnected s"
  "listeners (socket_emit e i s) = listeners s"
  "metricsCollector (socket_emit e i s) = metricsCollector s"
  "timeout (socket_emit e i s) = timeout s"
  "emitted (socket_emit e i s) = emitted s @ [(e, i)]"
  "nextClosure (socket_emit e i s) = nextClosure s"
  "unaryJobs (socket_emit e i s) = unaryJobs s"
  "streamingJobs (socket_emit e i s) = streamingJobs s"
  "terminalJobs (socket_emit e i s) = terminalJobs s"
  by (simp_all add: socket_emit_def)

lemma tracked_removeListener [simp]:
  "tracked (removeListener e l s) e' l' = (tracked s e' l' \<and> (e', l') \<noteq> (e, l))"
  by (auto simp: tracked_def removeListener_def Let_def split: option.splits if_splits)

lemma tracked_trackListener [simp]:
  "tracked (trackListener e l s) e' l' = (tracked s e' l' \<or> (e', l') = (e, l))"
  by (auto simp: tracked_def trackListener_def Let_def split: option.splits if_splits)

lemma tracked_cong:
  "listeners s' = listeners s \<Longrightarrow> tracked s' e l = tracked s e l"
  by (simp add: tracked_def)

lemma attached_cong:
  "socket s' = socket s \<Longrightarrow> attached s' e l = attached s e l"
  by (simp add: attached_def)

lemma attached_passive [simp]:
  "attached (removeListener e l s) e' l' = attached s e' l'"
  "attached (trackListener e l s) e' l' = attached s e' l'"
  "attached (socket_emit e i s) e' l' = attached s e' l'"
  by (simp_all add: attached_def)

lemma tracked_passive [simp]:
  "tracked (socket_off e l s) e' l' = tracked s e' l'"
  "tracked (socket_on e l s) e' l' = tracked s e' l'"
  "tracked (socket_emit e i s) e' l' = tracked s e' l'"
  by (simp_all add: tracked_def)

lemma attached_socket_off_other:
  "(e', l') \<noteq> (e, l) \<Longrightarrow> attached (socket_off e l s) e' l' = attached s e' l'"
  by (auto simp: attached_def split: option.splits)

lemma attached_socket_on [simp]:
  "attached (socket_on e l s) e' l' = (socket s \<noteq> None \<and> (attached s e' l' \<or> (e', l') = (e, l)))"
  by (auto simp: attached_def split: option.splits)


subsection \<open>What each listener function touches\<close>

lemma sendJob_listener_frame:
  "a \<noteq> b \<Longrightarrow> unaryJobs (sendJob_listener b res s) a = unaryJobs s a"
  "streamingJobs (sendJob_listener b res s) = streamingJobs s"
  "terminalJobs (sendJob_listener b res s) = terminalJobs s"
  "l \<noteq> ResultListener b \<Longrightarrow> attached (sendJob_listener b res s) e l = attached s e l"
  "l \<noteq> ResultListener b \<Longrightarrow> tracked (sendJob_listener b res s) e l = tracked s e l"
  by (auto simp: sendJob_listener_def Let_def attached_def tracked_def removeListener_def
      split: option.splits)

lemma sendJob_listener_mismatch:
  "unaryJobs s a = Some ja \<Longrightarrow> jr_jobId res \<noteq> uj_jobId ja \<Longrightarrow> sendJob_listener a res s = s"
  by (simp add: sendJob_listener_def)

lemma streaming_cleanup_frame:
  "a \<noteq> b \<Longrightarrow> streamingJobs (streaming_cleanup b s) a = streamingJobs s a"
  "unaryJobs (streaming_cleanup b s) = unaryJobs s"
  "terminalJobs (streaming_cleanup b s) = terminalJobs s"
  "listeners (streaming_cleanup b s) = listeners s"
  "l \<noteq> OutputListener b \<Longrightarrow> attached (streaming_cleanup b s) e l = attached s e l"
  by (auto simp: streaming_cleanup_def Let_def attached_def split: option.splits)

lemma sj_settle_frame:
  "a \<noteq> b \<Longrightarrow> streamingJobs (sj_settle b f s) a = streamingJobs s a"
  "unaryJobs (sj_settle b f s) = unaryJobs s"
  "terminalJobs (sj_settle b f s) = terminalJobs s"
  "listeners (sj_settle b f s) = listeners s"
  "socket (sj_settle b f s) = socket s"
  by (auto simp: sj_settle_def split: option.splits)

lemma attached_update [simp]:
  "attached (s\<lparr>unaryJobs := u\<rparr>) e l = attached s e l"
  "attached (s\<lparr>streamingJobs := sj\<rparr>) e l = attached s e l"
  "attached (s\<lparr>terminalJobs := tj\<rparr>) e l = attached s e l"
  "attached (s\<lparr>metricsCollector := mc\<rparr>) e l = attached s e l"
  "attached (s\<lparr>listeners := ls\<rparr>) e l = attached s e l"
  "attached (s\<lparr>isConnected := c\<rparr>) e l = attached s e l"
  by (simp_all add: attached_def)

lemma tracked_update [simp]:
  "tracked (s\<lparr>unaryJobs := u\<rparr>) e l = tracked s e l"
  "tracked (s\<lparr>streamingJobs := sj\<rparr>) e l = tracked s e l"
  "tracked (s\<lparr>terminalJobs := tj\<rparr>) e l = tracked s e l"
  "tracked (s\<lparr>metricsCollector := mc\<rparr>) e l = tracked s e l"
  "tracked (s\<lparr>socket := so\<rparr>) e l = tracked s e l"
  "tracked (s\<lparr>isConnected := c\<rparr>) e l = tracked s e l"
  by (simp_all add: tracked_def)

lemma attached_sj_settle [simp]: "attached (sj_settle b f s) e l = attached s e l"
  by (rule attached_cong) (rule sj_settle_frame)

lemma outputListener_frame:
  "a \<noteq> b \<Longrightarrow> streamingJobs (outputListener now b res s) a = streamingJobs s a"
  "unaryJobs (outputListener now b res s) = unaryJobs s"
  "terminalJobs (outputListener now b res s) = terminalJobs s"
  "listeners (outputListener now b res s) = listeners s"
  "socket (outputListener now b res s) = socket s"
  "attached (outputListener now b res s) e l = attached s e l"
  by (simp_all add: outputListener_def Let_def split: option.splits prod.splits)

lemma outputListener_resume_frame:
  "a \<noteq> b \<Longrightarrow> streamingJobs (outputListener_resume now b k s) a = streamingJobs s a"
  "unaryJobs (outputListener_resume now b k s) = unaryJobs s"
  "terminalJobs (outputListener_resume now b k s) = terminalJobs s"
  "listeners (outputListener_resume now b k s) = listeners s"
  "l \<noteq> OutputListener b \<Longrightarrow> attached (outputListener_resume now b k s) e l = attached s e l"
  by (simp_all add: outputListener_resume_def Let_def sj_settle_frame streaming_cleanup_frame
      split: option.splits prod.splits)

lemma outputListener_mismatch:
  "streamingJobs s a = Some ja \<Longrightarrow> oc_jobId res \<noteq> sj_jobId ja \<Longrightarrow> outputListener now a res s = s"
  by (simp add: outputListener_def)


lemma terminal_cleanup_frame:
  "unaryJobs (terminal_cleanup b s) = unaryJobs s"
  "streamingJobs (terminal_cleanup b s) = streamingJobs s"
  "a \<noteq> b \<Longrightarrow> terminalJobs (terminal_cleanup b s) a = terminalJobs s a"
  "l \<noteq> StreamListener b \<Longrightarrow> l \<noteq> EndListener b \<Longrightarrow>
     attached (terminal_cleanup b s) e l = attached s e l"
  "l \<noteq> StreamListener b \<Longrightarrow> l \<noteq> EndListener b \<Longrightarrow>
     tracked (terminal_cleanup b s) e l = tracked s e l"
  by (auto simp: terminal_cleanup_def Let_def attached_socket_off_other split: option.splits)

lemma tj_settle_frame:
  "unaryJobs (tj_settle b f s) = unaryJobs s"
  "streamingJobs (tj_settle b f s) = streamingJobs s"
  "a \<noteq> b \<Longrightarrow> terminalJobs (tj_settle b f s) a = terminalJobs s a"
  "attached (tj_settle b f s) e l = attached s e l"
  "tracked (tj_settle b f s) e l = tracked s e l"
  by (auto simp: tj_settle_def split: option.splits)

lemma streamListener_frame:
  "unaryJobs (fst (streamListener now b res s)) = unaryJobs s"
  "streamingJobs (fst (streamListener now b res s)) = streamingJobs s"
  "a \<noteq> b \<Longrightarrow> terminalJobs (fst (streamListener now b res s)) a = terminalJobs s a"
  "attached (fst (streamListener now b res s)) e l = attached s e l"
  "tracked (fst (streamListener now b res s)) e l = tracked s e l"
  by (auto simp: streamListener_def Let_def split: option.splits)

lemma endListener_frame:
  "unaryJobs (endListener now b res s) = unaryJobs s"
  "streamingJobs (endListener now b res s) = streamingJobs s"
  "a \<noteq> b \<Longrightarrow> terminalJobs (endListener now b res s) a = terminalJobs s a"
  "l \<noteq> StreamListener b \<Longrightarrow> l \<noteq> EndListener b \<Longrightarrow>
     attached (endListener now b res s) e l = attached s e l"
  "l \<noteq> StreamListener b \<Longrightarrow> l \<noteq> EndListener b \<Longrightarrow>
     tracked (endListener now b res s) e l = tracked s e l"
  by (simp_all add: endListener_def Let_def tj_settle_frame terminal_cleanup_frame
      split: option.splits)

text \<open>Runs compose.\<close>

lemma run_snoc: "run (evs @ [ev]) s = step ev (run evs s)"
  by (simp add: run_def)

lemma run_append: "run (evs @ later) s = run later (run evs s)"
  by (simp add: run_def)

text \<open>Unfolding bundles for evaluating concrete runs.\<close>

lemmas sdk_defs = new_SandboxSDK_def new_MetricsCollector_def or_default_def
  trackListener_def removeListener_def socket_on_def socket_off_def socket_emit_def
  tracked_def attached_def run_def receive_def handlers_for_def
  RESULT_def STREAM_def STREAM_END_def JOB_OUTPUT_def EXECUTE_def TERMINAL_def

lemmas unary_defs = sendJob_def sendJob_timer_def sendJob_listener_def failure_text_def
  resolve_def reject_def clearTimeout_def

lemmas streaming_defs = sendStreamingJob_def streaming_cleanup_def sj_settle_def
  streaming_timer_def outputListener_def outputListener_resume_def opts_timeoutMs_def
  resolve_def reject_def clearTimeout_def

lemmas terminal_defs = runTerminal_def terminal_cleanup_def tj_settle_def terminal_timer_def
  streamListener_def endListener_def opts_timeoutMs_def resolve_def reject_def
  clearTimeout_def


section \<open>Isolation of jobs by correlation id\<close>

text \<open>A unary job whose id differs from the payload's is left alone by every registered function.\<close>

lemma call_listener_unary_other:
  assumes "unaryJobs s a = Some ja" and "jobId_of m \<noteq> uj_jobId ja"
  shows "unaryJobs (fst (call_listener now m l s)) a = Some ja
       \<and> attached (fst (call_listener now m l s)) RESULT (ResultListener a) =
           attached s RESULT (ResultListener a)
       \<and> tracked (fst (call_listener now m l s)) RESULT (ResultListener a) =
           tracked s RESULT (ResultListener a)"
proof (cases m)
  case (JobResult res)
  show ?thesis
  proof (cases l)
    case (ResultListener b)
    show ?thesis
    proof (cases "b = a")
      case True
      with assms JobResult ResultListener show ?thesis
        by (simp add: sendJob_listener_mismatch)
    next
      case False
      with assms JobResult ResultListener show ?thesis
        by (simp add: sendJob_listener_frame)
    qed
  qed (use assms JobResult in simp_all)
next
  case (JobOutput res)
  show ?thesis
    by (cases l) (use assms JobOutput in \<open>simp_all add: outputListener_frame
        tracked_cong [OF outputListener_frame(4)]\<close>)
next
  case (Stream res)
  show ?thesis
    by (cases l) (use assms Stream in \<open>simp_all add: streamListener_frame\<close>)
next
  case (StreamEnd res)
  show ?thesis
    by (cases l) (use assms StreamEnd in \<open>simp_all add: endListener_frame\<close>)
qed

lemma deliver_unary_other:
  assumes "jobId_of m \<noteq> uj_jobId ja"
  shows "unaryJobs s a = Some ja \<Longrightarrow>
         unaryJobs (deliver now m ls s) a = Some ja
       \<and> attached (deliver now m ls s) RESULT (ResultListener a) =
           attached s RESULT (ResultListener a)
       \<and> tracked (deliver now m ls s) RESULT (ResultListener a) =
           tracked s RESULT (ResultListener a)"
proof (induction ls arbitrary: s)
  case Nil
  then show ?case by simp
next
  case (Cons l ls)
  obtain s' r where c: "call_listener now m l s = (s', r)" by (cases "call_listener now m l s")
  from call_listener_unary_other [OF Cons.prems assms, of now l]
  have one: "unaryJobs s' a = Some ja"
    "attached s' RESULT (ResultListener a) = attached s RESULT (ResultListener a)"
    "tracked s' RESULT (ResultListener a) = tracked s RESULT (ResultListener a)"
    by (simp_all add: c)
  show ?case
  proof (cases r)
    case None
    with Cons.IH [OF one(1)] one c show ?thesis by simp
  next
    case (Some e)
    with one c show ?thesis by simp
  qed
qed


text \<open>The same for a streaming job.\<close>

lemma call_listener_streaming_other:
  assumes "streamingJobs s a = Some ja" and "jobId_of m \<noteq> sj_jobId ja"
  shows "streamingJobs (fst (call_listener now m l s)) a = Some ja
       \<and> attached (fst (call_listener now m l s)) JOB_OUTPUT (OutputListener a) =
           attached s JOB_OUTPUT (OutputListener a)
       \<and> tracked (fst (call_listener now m l s)) JOB_OUTPUT (OutputListener a) =
           tracked s JOB_OUTPUT (OutputListener a)"
proof (cases m)
  case (JobResult res)
  show ?thesis
    by (cases l) (use assms JobResult in \<open>simp_all add: sendJob_listener_frame\<close>)
next
  case (JobOutput res)
  show ?thesis
  proof (cases l)
    case (OutputListener b)
    show ?thesis
    proof (cases "b = a")
      case True
      with assms JobOutput OutputListener show ?thesis
        by (simp add: outputListener_mismatch)
    next
      case False
      with assms JobOutput OutputListener show ?thesis
        by (simp add: outputListener_frame tracked_cong [OF outputListener_frame(4)])
    qed
  qed (use assms JobOutput in simp_all)
next
  case (Stream res)
  show ?thesis
    by (cases l) (use assms Stream in \<open>simp_all add: streamListener_frame\<close>)
next
  case (StreamEnd res)
  show ?thesis
    by (cases l) (use assms StreamEnd in \<open>simp_all add: endListener_frame\<close>)
qed

lemma deliver_streaming_other:
  assumes "jobId_of m \<noteq> sj_jobId ja"
  shows "streamingJobs s a = Some ja \<Longrightarrow>
         streamingJobs (deliver now m ls s) a = Some ja
       \<and> attached (deliver now m ls s) JOB_OUTPUT (OutputListener a) =
           attached s JOB_OUTPUT (OutputListener a)
       \<and> tracked (deliver now m ls s) JOB_OUTPUT (OutputListener a) =
           tracked s JOB_OUTPUT (OutputListener a)"
proof (induction ls arbitrary: s)
  case Nil
  then show ?case by simp
next
  case (Cons l ls)
  obtain s' r where c: "call_listener now m l s = (s', r)" by (cases "call_listener now m l s")
  from call_listener_streaming_other [OF Cons.prems assms, of now l]
  have one: "streamingJobs s' a = Some ja"
    "attached s' JOB_OUTPUT (OutputListener a) = attached s JOB_OUTPUT (OutputListener a)"
    "tracked s' JOB_OUTPUT (OutputListener a) = tracked s JOB_OUTPUT (OutputListener a)"
    by (simp_all add: c)
  show ?case
  proof (cases r)
    case None
    with Cons.IH [OF one(1)] one c show ?thesis by simp
  next
    case (Some e)
    with one c show ?thesis by simp
  qed
qed

text \<open>
  Claim C3. Let a job A be in flight (a \<open>sendJob\<close> call, or a streaming job) and let a
  payload arrive that carries another correlation id, such as the id of a second job B in
  flight on the same socket. After the socket has called every function registered for
  the payload's event, the closure variables of A, its promise among them, are what they
  were, and A's listener is attached and tracked exactly as before; A's own listener,
  called with that payload, returns the state unchanged.
\<close>

theorem correlation_isolation:
  "(unaryJobs s a = Some ja \<and> jobId_of m \<noteq> uj_jobId ja \<longrightarrow>
      unaryJobs (receive now m s) a = Some ja
    \<and> attached (receive now m s) RESULT (ResultListener a) = attached s RESULT (ResultListener a)
    \<and> tracked (receive now m s) RESULT (ResultListener a) = tracked s RESULT (ResultListener a)
    \<and> (\<forall>res. m = JobResult res \<longrightarrow> sendJob_listener a res s = s))
 \<and> (streamingJobs s b = Some jb \<and> jobId_of m \<noteq> sj_jobId jb \<longrightarrow>
      streamingJobs (receive now m s) b = Some jb
    \<and> attached (receive now m s) JOB_OUTPUT (OutputListener b) =
        attached s JOB_OUTPUT (OutputListener b)
    \<and> tracked (receive now m s) JOB_OUTPUT (OutputListener b) =
        tracked s JOB_OUTPUT (OutputListener b)
    \<and> (\<forall>res. m = JobOutput res \<longrightarrow> outputListener now b res s = s))"
proof (intro conjI impI allI)
  assume h: "unaryJobs s a = Some ja \<and> jobId_of m \<noteq> uj_jobId ja"
  from deliver_unary_other [of m ja s a now "handlers_for (event_of m) s"] h
  show "unaryJobs (receive now m s) a = Some ja"
    and "attached (receive now m s) RESULT (ResultListener a) = attached s RESULT (ResultListener a)"
    and "tracked (receive now m s) RESULT (ResultListener a) = tracked s RESULT (ResultListener a)"
    by (simp_all add: receive_def)
  fix res assume "m = JobResult res"
  with h show "sendJob_listener a res s = s" by (simp add: sendJob_listener_mismatch)
next
  assume h: "streamingJobs s b = Some jb \<and> jobId_of m \<noteq> sj_jobId jb"
  from deliver_streaming_other [of m jb s b now "handlers_for (event_of m) s"] h
  show "streamingJobs (receive now m s) b = Some jb"
    and "attached (receive now m s) JOB_OUTPUT (OutputListener b) =
        attached s JOB_OUTPUT (OutputListener b)"
    and "tracked (receive now m s) JOB_OUTPUT (OutputListener b) =
        tracked s JOB_OUTPUT (OutputListener b)"
    by (simp_all add: receive_def)
  fix res assume "m = JobOutput res"
  with h show "outputListener now b res s = s" by (simp add: outputListener_mismatch)
qed

theorem correlation_isolation_witness:
  "map_option uj_promise (unaryJobs (receive 5 (JobResult \<lparr>jr_jobId = ''B'', jr_success = True,
       jr_output = Some (JStr ''done''), jr_error = None\<rparr>) session3) 0) = Some Pending
   \<and> map_option uj_promise (unaryJobs (receive 5 (JobResult \<lparr>jr_jobId = ''B'', jr_success = True,
       jr_output = Some (JStr ''done''), jr_error = None\<rparr>) session3) 1) =
       Some (Fulfilled (JStr ''done''))
   \<and> attached (receive 5 (JobResult \<lparr>jr_jobId = ''B'', jr_success = True,
       jr_output = Some (JStr ''done''), jr_error = None\<rparr>) session3) RESULT (ResultListener 0)
   \<and> map_option sj_promise (streamingJobs (receive 5 (JobResult \<lparr>jr_jobId = ''B'',
       jr_success = True, jr_output = Some (JStr ''done''), jr_error = None\<rparr>) session3) 2) =
       Some Pending"
  using correlation_isolation
    [of session3 0
        "\<lparr>uj_jobId = ''A'', uj_timeout = 60000, uj_timeoutHandle = True, uj_timer = Armed,
          uj_promise = Pending\<rparr>"
        "JobResult \<lparr>jr_jobId = ''B'', jr_success = True, jr_output = Some (JStr ''done''),
                    jr_error = None\<rparr>"
        5 2
        "\<lparr>sj_jobId = ''C'', sj_timeout = 60000, sj_timeoutHandle = True, sj_timer = Armed,
          sj_execution = new_Execution, sj_metadata = some_metadata, sj_opts = None,
          sj_calls = 0, sj_suspended = [], sj_promise = Pending\<rparr>"]
  by (simp add: session3_def session2_def session1_def state_after_def sdk_defs unary_defs
      streaming_defs Let_def)


section \<open>Settlement of a sendJob call\<close>

lemma unary_evolves_refl: "unary_evolves j j"
  by (simp add: unary_evolves_def)

lemma unary_evolves_trans: "unary_evolves j j' \<Longrightarrow> unary_evolves j' j'' \<Longrightarrow> unary_evolves j j''"
  by (auto simp: unary_evolves_def)

lemma settled_not_pending:
  "settled_by_result p \<Longrightarrow> p \<noteq> Pending"
  "settled_by_timeout t p \<Longrightarrow> p \<noteq> Pending"
  by auto

lemma settled_by_result_cases:
  "settled_by_result p = ((\<exists>out. p = Fulfilled out) \<or> (\<exists>m. p = Rejected (SandboxError m)))"
  by (cases p rule: settled_by_result.cases) auto

lemma settled_by_timeout_iff:
  "settled_by_timeout t p = (p = Rejected (TimeoutError ''Job timeout after '' t))"
  by (cases "(t, p)" rule: settled_by_timeout.cases) auto

lemma state_ok_not_armed: "unary_state_ok j \<Longrightarrow> uj_timer j \<noteq> Armed \<Longrightarrow> uj_promise j \<noteq> Pending"
  by (cases "uj_timer j") (auto simp: unary_state_ok_def dest: settled_not_pending)

lemma sendJob_listener_own:
  "unaryJobs s n = Some j \<Longrightarrow>
   \<exists>j'. unaryJobs (sendJob_listener n res s) n = Some j' \<and> unary_evolves j j'"
  by (cases "uj_timer j"; cases "uj_promise j")
     (auto simp: sendJob_listener_def Let_def unary_evolves_def unary_state_ok_def
        resolve_def reject_def clearTimeout_def split: option.splits)

lemma sendJob_timer_frame:
  "a \<noteq> b \<Longrightarrow> unaryJobs (sendJob_timer b s) a = unaryJobs s a"
  "streamingJobs (sendJob_timer b s) = streamingJobs s"
  "terminalJobs (sendJob_timer b s) = terminalJobs s"
  by (auto simp: sendJob_timer_def Let_def split: option.splits)

lemma fire_unary_own:
  "unaryJobs s n = Some j \<Longrightarrow>
   \<exists>j'. unaryJobs (fire (UnaryTimer n) s) n = Some j' \<and> unary_evolves j j' \<and> uj_timer j' \<noteq> Armed"
  by (cases "uj_timer j"; cases "uj_promise j")
     (auto simp: sendJob_timer_def Let_def unary_evolves_def unary_state_ok_def
        resolve_def reject_def)

lemma streaming_timer_unary: "unaryJobs (streaming_timer b s) = unaryJobs s"
  by (simp add: streaming_timer_def sj_settle_frame streaming_cleanup_frame split: option.splits)

lemma terminal_timer_unary: "unaryJobs (terminal_timer b s) = unaryJobs s"
  by (simp add: terminal_timer_def tj_settle_frame terminal_cleanup_frame split: option.splits)

lemma fire_unary_other:
  "t \<noteq> UnaryTimer n \<Longrightarrow> unaryJobs (fire t s) n = unaryJobs s n"
  by (cases t)
     (auto simp: sendJob_timer_frame streaming_timer_unary terminal_timer_unary
        split: option.splits)

lemma on_disconnect_unary: "unaryJobs (on_disconnect s) = unaryJobs s"
  by (simp add: on_disconnect_def cleanupAllListeners_def)

lemma call_listener_unary:
  assumes "unaryJobs s n = Some j"
  shows "\<exists>j'. unaryJobs (fst (call_listener now m l s)) n = Some j' \<and> unary_evolves j j'"
proof (cases m)
  case (JobResult res)
  show ?thesis
  proof (cases l)
    case (ResultListener b)
    show ?thesis
    proof (cases "b = n")
      case True
      with assms JobResult ResultListener sendJob_listener_own [OF assms, of res]
      show ?thesis by simp
    next
      case False
      with assms JobResult ResultListener show ?thesis
        by (simp add: sendJob_listener_frame unary_evolves_refl)
    qed
  qed (use assms JobResult in \<open>simp_all add: unary_evolves_refl\<close>)
next
  case (JobOutput res)
  show ?thesis
    by (cases l) (use assms JobOutput in \<open>simp_all add: outputListener_frame unary_evolves_refl\<close>)
next
  case (Stream res)
  show ?thesis
    by (cases l) (use assms Stream in \<open>simp_all add: streamListener_frame unary_evolves_refl\<close>)
next
  case (StreamEnd res)
  show ?thesis
    by (cases l) (use assms StreamEnd in \<open>simp_all add: endListener_frame unary_evolves_refl\<close>)
qed

lemma deliver_unary:
  "unaryJobs s n = Some j \<Longrightarrow>
   \<exists>j'. unaryJobs (deliver now m ls s) n = Some j' \<and> unary_evolves j j'"
proof (induction ls arbitrary: s j)
  case Nil
  then show ?case by (simp add: unary_evolves_refl)
next
  case (Cons l ls)
  obtain s' r where c: "call_listener now m l s = (s', r)" by (cases "call_listener now m l s")
  from call_listener_unary [OF Cons.prems, of now m l] c
  obtain j1 where j1: "unaryJobs s' n = Some j1" "unary_evolves j j1" by auto
  show ?case
  proof (cases r)
    case None
    from Cons.IH [OF j1(1)] obtain j2
      where "unaryJobs (deliver now m ls s') n = Some j2" "unary_evolves j1 j2" by blast
    with None c j1 show ?thesis by (auto intro: unary_evolves_trans)
  next
    case (Some e)
    with c j1 show ?thesis by simp
  qed
qed

lemma step_unary:
  assumes "unaryJobs s n = Some j"
  shows "\<exists>j'. unaryJobs (step ev s) n = Some j' \<and> unary_evolves j j'
           \<and> (snd ev = TimerFires (UnaryTimer n) \<longrightarrow> uj_timer j' \<noteq> Armed)"
proof (cases ev)
  case (Pair now e)
  show ?thesis
  proof (cases e)
    case (TimerFires t)
    show ?thesis
    proof (cases "t = UnaryTimer n")
      case True
      with Pair TimerFires fire_unary_own [OF assms] show ?thesis by simp
    next
      case False
      with Pair TimerFires assms show ?thesis
        by (simp add: fire_unary_other unary_evolves_refl)
    qed
  next
    case (Received m)
    with Pair deliver_unary [OF assms, of now m "handlers_for (event_of m) s"]
    show ?thesis by (simp add: receive_def)
  next
    case Disconnect
    with Pair assms show ?thesis by (simp add: on_disconnect_unary unary_evolves_refl)
  next
    case (Resumes m k)
    with Pair assms show ?thesis
      by (simp add: outputListener_resume_frame unary_evolves_refl)
  qed
qed

lemma run_unary:
  assumes "unaryJobs s n = Some j"
  shows "\<exists>j'. unaryJobs (run evs s) n = Some j' \<and> unary_evolves j j'
           \<and> (TimerFires (UnaryTimer n) \<in> snd ` set evs \<longrightarrow> uj_timer j' \<noteq> Armed)"
proof (induction evs rule: rev_induct)
  case Nil
  with assms show ?case by (simp add: run_def unary_evolves_refl)
next
  case (snoc ev evs)
  then obtain j1 where j1: "unaryJobs (run evs s) n = Some j1" "unary_evolves j j1"
    "TimerFires (UnaryTimer n) \<in> snd ` set evs \<longrightarrow> uj_timer j1 \<noteq> Armed" by blast
  from step_unary [OF j1(1), of ev] obtain j2
    where j2: "unaryJobs (step ev (run evs s)) n = Some j2" "unary_evolves j1 j2"
      "snd ev = TimerFires (UnaryTimer n) \<longrightarrow> uj_timer j2 \<noteq> Armed" by blast
  have "unary_evolves j j2" using j1(2) j2(2) by (rule unary_evolves_trans)
  moreover have "TimerFires (UnaryTimer n) \<in> snd ` set (evs @ [ev]) \<longrightarrow> uj_timer j2 \<noteq> Armed"
    using j1(3) j2(2,3) by (auto simp: unary_evolves_def)
  ultimately show ?case using j2(1) by (auto simp: run_snoc)
qed

lemma sendJob_issued:
  assumes "sendJob event jobId tmo s = Inr (n, s0)"
  shows "unaryJobs s0 n = Some \<lparr>uj_jobId = jobId, uj_timeout = or_default tmo (timeout s),
           uj_timeoutHandle = True, uj_timer = Armed, uj_promise = Pending\<rparr>"
  using assms by (auto simp: sendJob_def Let_def split: option.splits)

text \<open>
  What the listener does with the matching result while the promise is pending: it
  fulfils the promise with the output when \<open>success\<close> is set and an output is present, and
  rejects it with a \<open>SandboxError\<close> carrying the message's error text otherwise.
\<close>

lemma result_settles:
  assumes "unaryJobs s n = Some j" and "uj_promise j = Pending"
      and "jr_jobId res = uj_jobId j"
  shows "map_option uj_promise (unaryJobs (sendJob_listener n res s) n) = Some (outcome_of res)"
  using assms
  by (simp add: sendJob_listener_def Let_def resolve_def reject_def outcome_of_def
      split: option.splits)

lemma outcome_settled: "outcome_of res \<noteq> Pending"
  by (simp add: outcome_of_def split: option.splits)

lemma state_ok_promise:
  "unary_state_ok j \<Longrightarrow>
   uj_promise j = Pending \<or> (\<exists>out. uj_promise j = Fulfilled out)
   \<or> (\<exists>m. uj_promise j = Rejected (SandboxError m))
   \<or> uj_promise j = Rejected (TimeoutError ''Job timeout after '' (uj_timeout j))"
  by (cases "uj_timer j")
     (auto simp: unary_state_ok_def settled_by_result_cases settled_by_timeout_iff)

text \<open>
  What holds of every \<open>sendJob\<close> call that issues a job, from any state and for any
  sequence of later events: the job is in exactly one of the three situations (waiting;
  settled by the listener; settled by the timer), the promise is settled once the job's
  timer has expired, and a settled promise keeps its value whatever happens later.
\<close>

lemma sendJob_settlement:
  assumes "sendJob event jobId tmo s = Inr (n, s0)"
  shows "\<exists>j. unaryJobs (run evs s0) n = Some j
           \<and> unary_state_ok j
           \<and> (uj_promise j = Pending \<or> (\<exists>out. uj_promise j = Fulfilled out)
                \<or> (\<exists>m. uj_promise j = Rejected (SandboxError m))
                \<or> uj_promise j =
                    Rejected (TimeoutError ''Job timeout after '' (or_default tmo (timeout s))))
           \<and> uj_jobId j = jobId
           \<and> uj_timeout j = or_default tmo (timeout s)
           \<and> (TimerFires (UnaryTimer n) \<in> snd ` set evs \<longrightarrow> uj_promise j \<noteq> Pending)
           \<and> (uj_promise j \<noteq> Pending \<longrightarrow>
                (\<forall>later. map_option uj_promise (unaryJobs (run later (run evs s0)) n) =
                          Some (uj_promise j)))"
proof -
  let ?j0 = "\<lparr>uj_jobId = jobId, uj_timeout = or_default tmo (timeout s),
           uj_timeoutHandle = True, uj_timer = Armed, uj_promise = Pending\<rparr>"
  have ok0: "unary_state_ok ?j0" by (simp add: unary_state_ok_def)
  from run_unary [OF sendJob_issued [OF assms], of evs] obtain j
    where j: "unaryJobs (run evs s0) n = Some j" "unary_evolves ?j0 j"
      "TimerFires (UnaryTimer n) \<in> snd ` set evs \<longrightarrow> uj_timer j \<noteq> Armed" by blast
  from j(2) ok0 have ok: "unary_state_ok j" and id: "uj_jobId j = jobId"
    and tm: "uj_timeout j = or_default tmo (timeout s)"
    by (simp_all add: unary_evolves_def)
  have fired: "TimerFires (UnaryTimer n) \<in> snd ` set evs \<longrightarrow> uj_promise j \<noteq> Pending"
    using j(3) ok by (auto dest: state_ok_not_armed)
  have stable: "map_option uj_promise (unaryJobs (run later (run evs s0)) n) = Some (uj_promise j)"
    if "uj_promise j \<noteq> Pending" for later
  proof -
    from run_unary [OF j(1), of later] obtain j'
      where "unaryJobs (run later (run evs s0)) n = Some j'" "unary_evolves j j'" by blast
    with that show ?thesis by (simp add: unary_evolves_def)
  qed
  have shape: "uj_promise j = Pending \<or> (\<exists>out. uj_promise j = Fulfilled out)
                \<or> (\<exists>m. uj_promise j = Rejected (SandboxError m))
                \<or> uj_promise j =
                    Rejected (TimeoutError ''Job timeout after '' (or_default tmo (timeout s)))"
    using state_ok_promise [OF ok] by (simp add: tm)
  show ?thesis using j(1) ok shape id tm fired stable by blast
qed


text \<open>
  The result path first: when the matching result arrives while the job waits, the
  promise takes the settlement the message asks for, and the expiry of the job's timer
  afterwards, or after anything else that happens in between, leaves the whole state as
  it is.
\<close>

lemma deliver_result_settles:
  assumes id: "jr_jobId res = uj_jobId j"
  shows "unaryJobs s n = Some j \<Longrightarrow> uj_promise j = Pending \<Longrightarrow> ResultListener n \<in> set ls \<Longrightarrow>
         map_option uj_promise (unaryJobs (deliver now (JobResult res) ls s) n) =
           Some (outcome_of res)"
proof (induction ls arbitrary: s)
  case Nil
  then show ?case by simp
next
  case (Cons l ls)
  show ?case
  proof (cases "l = ResultListener n")
    case True
    let ?s' = "sendJob_listener n res s"
    from result_settles [OF Cons.prems(1,2) id]
    obtain j1 where j1: "unaryJobs ?s' n = Some j1" "uj_promise j1 = outcome_of res" by auto
    from deliver_unary [OF j1(1), of now "JobResult res" ls] obtain j2
      where j2: "unaryJobs (deliver now (JobResult res) ls ?s') n = Some j2"
        "unary_evolves j1 j2" by blast
    from j2(2) j1(2) have "uj_promise j2 = outcome_of res"
      by (simp add: unary_evolves_def outcome_settled)
    with j2(1) True show ?thesis by simp
  next
    case False
    then have rest: "ResultListener n \<in> set ls" using Cons.prems(3) by simp
    obtain s' where s': "call_listener now (JobResult res) l s = (s', None)"
      by (cases l) simp_all
    have "unaryJobs s' n = Some j"
      using s' False Cons.prems(1) by (cases l) (auto simp: sendJob_listener_frame)
    from Cons.IH [OF this Cons.prems(2) rest] s' show ?thesis by simp
  qed
qed

lemma result_first:
  assumes issued: "sendJob event jobId tmo s = Inr (n, s0)" and id: "jr_jobId res = jobId"
  shows "map_option uj_promise (unaryJobs (receive now (JobResult res) s0) n) =
           Some (outcome_of res)"
    and "step (t, TimerFires (UnaryTimer n)) (run evs (receive now (JobResult res) s0)) =
           run evs (receive now (JobResult res) s0)"
proof -
  let ?j0 = "\<lparr>uj_jobId = jobId, uj_timeout = or_default tmo (timeout s),
           uj_timeoutHandle = True, uj_timer = Armed, uj_promise = Pending\<rparr>"
  let ?s1 = "receive now (JobResult res) s0"
  have j0: "unaryJobs s0 n = Some ?j0" by (rule sendJob_issued [OF issued])
  from issued obtain hs where "socket s0 = Some (hs @ [(RESULT, ResultListener n)])"
    by (auto simp: sendJob_def Let_def split: option.splits)
  then have att: "ResultListener n \<in> set (handlers_for RESULT s0)"
    by (simp add: handlers_for_def)
  show settled: "map_option uj_promise (unaryJobs ?s1 n) = Some (outcome_of res)"
    unfolding receive_def using deliver_result_settles [OF _ j0 _ att, of res now] id by simp
  from deliver_unary [OF j0, of now "JobResult res" "handlers_for RESULT s0"] obtain j1
    where j1: "unaryJobs ?s1 n = Some j1" "unary_evolves ?j0 j1" by (auto simp: receive_def)
  from run_unary [OF j1(1), of evs] obtain j2
    where j2: "unaryJobs (run evs ?s1) n = Some j2" "unary_evolves j1 j2" by blast
  have "unary_state_ok ?j0" by (simp add: unary_state_ok_def)
  with j1(2) j2(2) have ok: "unary_state_ok j2" by (simp add: unary_evolves_def)
  from settled j1(1) have "uj_promise j1 \<noteq> Pending" by (auto simp: outcome_settled)
  with j2(2) have "uj_promise j2 \<noteq> Pending" by (simp add: unary_evolves_def)
  with ok have "uj_timer j2 \<noteq> Armed" by (auto simp: unary_state_ok_def)
  with j2(1) show "step (t, TimerFires (UnaryTimer n)) (run evs ?s1) = run evs ?s1" by simp
qed

text \<open>
  Claim C1, evaluated on a fresh SDK for a \<open>sendJob\<close> call with id K and a timeout of
  3000 ms, in both orders. When the result arrives first, the promise is fulfilled with
  the output and the later expiry of the timer changes nothing. When the timer expires
  first, the promise is rejected with the \<open>TimeoutError\<close> and stays so, but the later
  result is not without effect: the listener, which the timer callback left registered
  with the socket, runs its matching branch, takes itself off the socket, clears
  \<open>timeoutHandle\<close> and calls \<open>resolve\<close> on the settled promise. The state after the late
  result differs from the state before it.
\<close>

theorem late_result_not_a_noop:
  "case sendJob ''job:file'' ''K'' (Some 3000) (new_SandboxSDK 0 None) of
     Inl e \<Rightarrow> False
   | Inr (n, s1) \<Rightarrow>
       (let reply = (Received (JobResult \<lparr>jr_jobId = ''K'', jr_success = True,
                        jr_output = Some (JStr ''content''), jr_error = None\<rparr>));
            a1 = run [(100, reply)] s1;
            a2 = run [(3000, TimerFires (UnaryTimer n))] a1;
            b1 = run [(3000, TimerFires (UnaryTimer n))] s1;
            b2 = run [(3100, reply)] b1
        in map_option uj_promise (unaryJobs a1 n) = Some (Fulfilled (JStr ''content''))
         \<and> a2 = a1
         \<and> map_option uj_promise (unaryJobs b1 n) =
             Some (Rejected (TimeoutError ''Job timeout after '' 3000))
         \<and> map_option uj_promise (unaryJobs b2 n) =
             Some (Rejected (TimeoutError ''Job timeout after '' 3000))
         \<and> b2 \<noteq> b1
         \<and> handlers_for RESULT b1 = [ResultListener n]
         \<and> handlers_for RESULT b2 = []
         \<and> map_option uj_timeoutHandle (unaryJobs b1 n) = Some True
         \<and> map_option uj_timeoutHandle (unaryJobs b2 n) = Some False)"
  by (simp add: sdk_defs unary_defs Let_def)


subsection \<open>A result that arrives after the timeout\<close>

text \<open>
  From any state: when the timer of a \<open>sendJob\<close> call expires first, the promise is
  rejected with the \<open>TimeoutError\<close> and the listener is no longer tracked, while the
  socket's handler list is untouched, so the listener stays attached. After any number
  of calls that time out one after the other on a fresh SDK, no tracked listener is left,
  and every one of their listeners is still registered for the result event.
\<close>

lemma timeout_rejects_and_untracks:
  assumes "sendJob event jobId tmo s = Inr (n, s0)"
  shows "map_option uj_promise (unaryJobs (fire (UnaryTimer n) s0) n) =
           Some (Rejected (TimeoutError ''Job timeout after '' (or_default tmo (timeout s))))"
    and "\<not> tracked (fire (UnaryTimer n) s0) RESULT (ResultListener n)"
    and "socket (fire (UnaryTimer n) s0) = socket s0"
    and "attached (fire (UnaryTimer n) s0) RESULT (ResultListener n)"
  using assms
  by (auto simp: sendJob_def Let_def sendJob_timer_def reject_def attached_def
      split: option.splits)

lemma expire_one:
  assumes tr: "listeners s RESULT = None" and so: "socket s = Some hs"
  shows "sendJob ''job:file'' jobId None s = Inr (nextClosure s, s0) \<Longrightarrow>
         listeners (fire (UnaryTimer (nextClosure s)) s0) = listeners s
       \<and> socket (fire (UnaryTimer (nextClosure s)) s0) =
           Some (hs @ [(RESULT, ResultListener (nextClosure s))])
       \<and> nextClosure (fire (UnaryTimer (nextClosure s)) s0) = Suc (nextClosure s)"
  using tr so
  by (auto simp: sendJob_def Let_def sendJob_timer_def trackListener_def removeListener_def
      socket_on_def socket_emit_def fun_eq_iff)

lemma issue_and_expire_leak:
  "listeners s RESULT = None \<Longrightarrow> socket s = Some hs \<Longrightarrow>
   listeners (issue_and_expire ids s) = listeners s
   \<and> socket (issue_and_expire ids s) =
       Some (hs @ map (\<lambda>k. (RESULT, ResultListener k))
                    [nextClosure s ..< nextClosure s + length ids])"
proof (induction ids arbitrary: s hs)
  case Nil
  then show ?case by simp
next
  case (Cons jobId ids)
  obtain s0 where issued: "sendJob ''job:file'' jobId None s = Inr (nextClosure s, s0)"
    using Cons.prems(2) by (simp add: sendJob_def Let_def)
  let ?s1 = "fire (UnaryTimer (nextClosure s)) s0"
  from expire_one [OF Cons.prems issued]
  have one: "listeners ?s1 = listeners s"
    "socket ?s1 = Some (hs @ [(RESULT, ResultListener (nextClosure s))])"
    "nextClosure ?s1 = Suc (nextClosure s)" by simp_all
  have "listeners ?s1 RESULT = None" using one(1) Cons.prems(1) by simp
  from Cons.IH [OF this one(2)]
  have rest: "listeners (issue_and_expire ids ?s1) = listeners ?s1"
    "socket (issue_and_expire ids ?s1) =
       Some ((hs @ [(RESULT, ResultListener (nextClosure s))]) @
             map (\<lambda>k. (RESULT, ResultListener k))
               [nextClosure ?s1 ..< nextClosure ?s1 + length ids])" by simp_all
  have unfold: "issue_and_expire (jobId # ids) s = issue_and_expire ids ?s1"
    using issued by (simp del: fire.simps)
  have upt: "[nextClosure s ..< nextClosure s + length (jobId # ids)] =
        nextClosure s # [Suc (nextClosure s) ..< Suc (nextClosure s) + length ids]"
    using upt_conv_Cons [of "nextClosure s" "nextClosure s + length (jobId # ids)"]
    by (simp del: upt_Suc)
  show ?case unfolding unfold upt using rest one by (simp del: fire.simps)
qed

lemma timeouts_leave_no_tracked_listener:
  "listeners (issue_and_expire ids (new_SandboxSDK t cfg)) = Map.empty
   \<and> handlers_for RESULT (issue_and_expire ids (new_SandboxSDK t cfg)) =
       map ResultListener [0 ..< length ids]"
proof -
  have a: "listeners (new_SandboxSDK t cfg) RESULT = None"
    and b: "socket (new_SandboxSDK t cfg) = Some []"
    and c: "nextClosure (new_SandboxSDK t cfg) = 0"
    and d: "listeners (new_SandboxSDK t cfg) = Map.empty"
    by (simp_all add: new_SandboxSDK_def)
  from issue_and_expire_leak [OF a b, of ids] c d show ?thesis
    by (simp add: handlers_for_def comp_def)
qed

text \<open>
  Claim C2, evaluated on a fresh SDK: a \<open>sendJob\<close> call with id J whose timer expires,
  followed by a result message for J. After the timer the promise is rejected with the
  \<open>TimeoutError\<close> and nothing is tracked any more, but the listener is still registered
  with the socket (the timer callback calls \<open>removeListener\<close> and not \<open>socket.off\<close>), and
  a disconnect does not take it off either, since it is no longer tracked. The late
  message is therefore handed to the listener, which takes its matching branch: the state
  changes (the listener takes itself off the socket and clears \<open>timeoutHandle\<close>), and
  only the settled promise keeps its value.
\<close>

theorem late_result_after_timeout:
  "case sendJob ''job:file'' ''J'' None (new_SandboxSDK 0 None) of
     Inl e \<Rightarrow> False
   | Inr (n, s1) \<Rightarrow>
       (let s2 = run [(60000, TimerFires (UnaryTimer n))] s1;
            s3 = run [(60001, Received (JobResult \<lparr>jr_jobId = ''J'', jr_success = True,
                          jr_output = Some (JStr ''late''), jr_error = None\<rparr>))] s2
        in map_option uj_promise (unaryJobs s2 n) =
             Some (Rejected (TimeoutError ''Job timeout after '' 60000))
         \<and> listeners s2 = Map.empty
         \<and> socket s2 = Some [(RESULT, ResultListener n)]
         \<and> attached (run [(60002, Disconnect)] s2) RESULT (ResultListener n)
         \<and> map_option uj_timeoutHandle (unaryJobs s2 n) = Some True
         \<and> s3 \<noteq> s2
         \<and> socket s3 = Some []
         \<and> map_option uj_timeoutHandle (unaryJobs s3 n) = Some False
         \<and> map_option uj_promise (unaryJobs s3 n) =
             Some (Rejected (TimeoutError ''Job timeout after '' 60000)))"
  by (simp add: sdk_defs unary_defs Let_def on_disconnect_def cleanupAllListeners_def)



section \<open>Streaming execution\<close>

lemma invoke_ok:
  "callbacks_succeed opts \<Longrightarrow> snd (invoke opts onStdout tag x) = None"
  "callbacks_succeed opts \<Longrightarrow> snd (invoke opts onStderr tag' x) = None"
  "callbacks_succeed opts \<Longrightarrow> snd (invoke opts onResult tag'' y) = None"
  "callbacks_succeed opts \<Longrightarrow> snd (invoke opts onError tag''' z) = None"
  by (auto simp: callbacks_succeed_def invoke_def split: option.splits)

lemma parse_completes:
  "callbacks_succeed opts \<Longrightarrow> snd (snd (parseOutput now ex (Some (JObj kvs)) opts)) = None"
  by (simp add: parseOutput_def Let_def invoke_ok)

lemma sendStreamingJob_fresh:
  assumes "sendStreamingJob event J ex md opts (new_SandboxSDK t0 cfg) = Inr (n, s1)"
  shows "n = 0"
    and "s1 = (new_SandboxSDK t0 cfg)
           \<lparr>socket := Some [(JOB_OUTPUT, OutputListener 0)],
            listeners := [JOB_OUTPUT \<mapsto> {OutputListener 0}],
            emitted := [(event, J)],
            nextClosure := 1,
            streamingJobs := [0 \<mapsto> \<lparr>sj_jobId = J,
                sj_timeout = or_default (opts_timeoutMs opts) (or_default cfg 60000),
                sj_timeoutHandle = True, sj_timer = Armed, sj_execution = ex,
                sj_metadata = md, sj_opts = opts, sj_calls = 0, sj_suspended = [],
                sj_promise = Pending\<rparr>]\<rparr>"
  using assms
  by (auto simp: sendStreamingJob_def new_SandboxSDK_def Let_def trackListener_def
      socket_on_def socket_emit_def)

lemma issued_waiting:
  assumes "sendStreamingJob event J ex md opts (new_SandboxSDK t0 cfg) = Inr (n, s1)"
  shows "streaming_waiting n J opts ex 0 s1"
  unfolding sendStreamingJob_fresh [OF assms]
  by (simp add: streaming_waiting_def handlers_for_def all_complete_def)

lemma all_complete_lookup:
  "all_complete xs \<Longrightarrow> map_of xs k = Some f \<Longrightarrow> f = None"
  by (induction xs) (auto simp: all_complete_def split: if_splits)

lemma all_complete_filter: "all_complete xs \<Longrightarrow> all_complete (filter P xs)"
  by (induction xs) (auto simp: all_complete_def)

lemma all_complete_snoc: "all_complete xs \<Longrightarrow> all_complete (xs @ [(k, None)])"
  by (simp add: all_complete_def)

lemma lookup_suspended: "(map_of xs k \<noteq> None) = (k \<in> fst ` set xs)"
  by (simp add: map_of_eq_None_iff)

text \<open>Before the error chunk: a resumption finds no error and only ends the call.\<close>

lemma resume_while_waiting:
  assumes w: "streaming_waiting n J opts ex c s" and ne: "error ex = None"
  shows "streaming_waiting n J opts ex c (step (t, Resumes n k) s)"
proof -
  from w obtain j where j: "streamingJobs s n = Some j"
    by (auto simp: streaming_waiting_def split: option.splits)
  show ?thesis
  proof (cases "map_of (sj_suspended j) k")
    case None
    with j w show ?thesis by (simp add: outputListener_resume_def)
  next
    case (Some f)
    with w j have "f = None"
      by (auto simp: streaming_waiting_def dest: all_complete_lookup)
    with Some j w ne show ?thesis
      by (simp add: outputListener_resume_def Let_def streaming_waiting_def handlers_for_def
          all_complete_filter)
  qed
qed

lemma resumptions_while_waiting:
  assumes ne: "error ex = None"
  shows "streaming_waiting n J opts ex c s \<Longrightarrow>
         streaming_waiting n J opts ex c (run (resumptions n rs) s)"
proof (induction rs rule: rev_induct)
  case Nil
  then show ?case by (simp add: resumptions_def run_def)
next
  case (snoc r rs)
  obtain t k where r: "r = (t, k)" by (cases r)
  from resume_while_waiting [OF snoc.IH [OF snoc.prems] ne, of t k] show ?case
    by (simp add: resumptions_def run_snoc r)
qed

text \<open>A chunk for the waiting job: parsed at once, the call suspended under the next number.\<close>

lemma chunk_while_waiting:
  assumes w: "streaming_waiting n J opts ex c s" and ok: "callbacks_succeed opts"
  shows "streaming_waiting n J opts (fst (parseOutput t ex (Some (JObj kvs)) opts)) (Suc c)
           (step (t, chunk J kvs) s)"
    and "suspended n c (step (t, chunk J kvs) s)"
proof -
  from w obtain j where j: "streamingJobs s n = Some j"
    by (auto simp: streaming_waiting_def split: option.splits)
  have st: "step (t, chunk J kvs) s =
      outputListener t n \<lparr>oc_jobId = J, oc_line = Some (JObj kvs)\<rparr> s"
    using w by (simp add: chunk_def receive_def streaming_waiting_def)
  obtain ex' calls where p: "parseOutput t ex (Some (JObj kvs)) opts = (ex', calls, None)"
    using parse_completes [OF ok, of t ex kvs]
    by (cases "parseOutput t ex (Some (JObj kvs)) opts") auto
  from w j p show "streaming_waiting n J opts (fst (parseOutput t ex (Some (JObj kvs)) opts))
      (Suc c) (step (t, chunk J kvs) s)"
    unfolding st
    by (simp add: outputListener_def streaming_waiting_def handlers_for_def all_complete_snoc)
  from w j p show "suspended n c (step (t, chunk J kvs) s)"
    unfolding st
    by (simp add: outputListener_def streaming_waiting_def suspended_def)
qed


text \<open>After the error chunk: the first resumption of a suspended call ends the wait.\<close>

lemma handlers_empty_remove1:
  "handlers_for e s = [] \<Longrightarrow> handlers_for e (s\<lparr>socket := map_option (remove1 x) (socket s)\<rparr>) = []"
proof (cases "socket s")
  case None
  then show ?thesis by (simp add: handlers_for_def)
next
  case (Some hs)
  assume "handlers_for e s = []"
  with Some have "filter (\<lambda>(e', l). e' = e) hs = []" by (simp add: handlers_for_def)
  then have "\<forall>y \<in> set hs. \<not> (\<lambda>(e', l). e' = e) y" by (simp add: filter_empty_conv)
  then have "\<forall>y \<in> set (remove1 x hs). \<not> (\<lambda>(e', l). e' = e) y"
    using set_remove1_subset [of x hs] by blast
  then have "filter (\<lambda>(e', l). e' = e) (remove1 x hs) = []" by (simp add: filter_empty_conv)
  with Some show ?thesis by (simp add: handlers_for_def)
qed

lemma handlers_single_remove1:
  assumes "handlers_for e s = [l]"
  shows "handlers_for e (s\<lparr>socket := map_option (remove1 (e, l)) (socket s)\<rparr>) = []"
proof -
  from assms obtain hs where hs: "socket s = Some hs"
    by (cases "socket s") (auto simp: handlers_for_def)
  have "map snd (filter (\<lambda>(e', l). e' = e) (remove1 (e, l) hs)) =
        remove1 l (map snd (filter (\<lambda>(e', l). e' = e) hs))"
  proof (induction hs)
    case Nil
    then show ?case by simp
  next
    case (Cons h hs)
    then show ?case by (cases h) auto
  qed
  with assms hs show ?thesis by (simp add: handlers_for_def)
qed

lemma resume_ends_wait:
  assumes w: "streaming_waiting n J opts ex c s" and e: "error ex \<noteq> None"
      and k: "suspended n k s"
  shows "streaming_finished n ex (step (t, Resumes n k) s)"
proof -
  from w obtain j where j: "streamingJobs s n = Some j"
    by (auto simp: streaming_waiting_def split: option.splits)
  from k j obtain f where f: "map_of (sj_suspended j) k = Some f"
    using lookup_suspended [of "sj_suspended j" k] by (auto simp: suspended_def)
  with w j have "f = None" by (auto simp: streaming_waiting_def dest: all_complete_lookup)
  with f j w e handlers_single_remove1 [of JOB_OUTPUT s "OutputListener n"] show ?thesis
    by (simp add: outputListener_resume_def Let_def streaming_waiting_def
        streaming_finished_def streaming_cleanup_def sj_settle_def resolve_def
        clearTimeout_def socket_off_def all_complete_filter streaming_result_def
        handlers_for_def)
qed

lemma resume_not_suspended:
  assumes "\<not> suspended n k s"
  shows "step (t, Resumes n k) s = s"
proof (cases "streamingJobs s n")
  case None
  then show ?thesis by (simp add: outputListener_resume_def)
next
  case (Some j)
  with assms have "map_of (sj_suspended j) k = None"
    by (simp add: suspended_def map_of_eq_None_iff)
  with Some show ?thesis by (simp add: outputListener_resume_def)
qed

lemma resume_when_finished:
  assumes fin: "streaming_finished n ex s"
  shows "streaming_finished n ex (step (t, Resumes n k) s)"
proof -
  from fin obtain j where j: "streamingJobs s n = Some j"
    by (auto simp: streaming_finished_def split: option.splits)
  show ?thesis
  proof (cases "map_of (sj_suspended j) k")
    case None
    with j fin show ?thesis by (simp add: outputListener_resume_def)
  next
    case (Some f)
    with fin j have "f = None" by (auto simp: streaming_finished_def dest: all_complete_lookup)
    with Some j fin handlers_empty_remove1 [of JOB_OUTPUT s "(JOB_OUTPUT, OutputListener n)"]
    show ?thesis
      by (auto simp: outputListener_resume_def Let_def streaming_finished_def
          streaming_cleanup_def sj_settle_def resolve_def socket_off_def all_complete_filter
          streaming_result_def handlers_for_def split: promise.splits)
  qed
qed


text \<open>
  Once the error chunk is parsed, the job either still waits with the call of the error
  chunk suspended, or is finished; resumptions keep it so.
\<close>

lemma resume_after_error:
  assumes e: "error ex \<noteq> None"
      and p: "streaming_waiting n J opts ex c s \<and> suspended n k0 s \<or> streaming_finished n ex s"
  shows "streaming_waiting n J opts ex c (step (t, Resumes n k) s) \<and>
           suspended n k0 (step (t, Resumes n k) s)
         \<or> streaming_finished n ex (step (t, Resumes n k) s)"
proof (cases "streaming_finished n ex s")
  case True
  then show ?thesis by (simp add: resume_when_finished del: step.simps)
next
  case False
  with p have w: "streaming_waiting n J opts ex c s" and k0: "suspended n k0 s" by auto
  show ?thesis
  proof (cases "suspended n k s")
    case True
    from resume_ends_wait [OF w e True] show ?thesis by (simp del: step.simps)
  next
    case False
    from resume_not_suspended [OF False] w k0 show ?thesis by (simp del: step.simps)
  qed
qed

lemma resumptions_after_error:
  assumes e: "error ex \<noteq> None"
  shows "streaming_waiting n J opts ex c s \<and> suspended n k0 s \<or> streaming_finished n ex s \<Longrightarrow>
         streaming_waiting n J opts ex c (run (resumptions n rs) s) \<and>
           suspended n k0 (run (resumptions n rs) s)
         \<or> streaming_finished n ex (run (resumptions n rs) s)"
proof (induction rs rule: rev_induct)
  case Nil
  then show ?case by (simp add: resumptions_def run_def)
next
  case (snoc r rs)
  obtain t k where r: "r = (t, k)" by (cases r)
  from resume_after_error [OF e snoc.IH [OF snoc.prems], of t k] show ?case
    by (simp add: resumptions_def run_snoc r del: step.simps)
qed

lemma resumptions_when_finished:
  "streaming_finished n ex s \<Longrightarrow> streaming_finished n ex (run (resumptions n rs) s)"
proof (induction rs rule: rev_induct)
  case Nil
  then show ?case by (simp add: resumptions_def run_def)
next
  case (snoc r rs)
  obtain t k where r: "r = (t, k)" by (cases r)
  from resume_when_finished [OF snoc.IH [OF snoc.prems], of t k] show ?case
    by (simp add: resumptions_def run_snoc r del: step.simps)
qed

lemma chunk_when_finished:
  "streaming_finished n ex s \<Longrightarrow> step (t, Received (JobOutput res)) s = s"
  by (simp add: streaming_finished_def receive_def)

lemma scenario_parsed:
  assumes ok: "callbacks_succeed opts"
      and w: "streaming_waiting n J opts new_Execution 0 s"
  shows "streaming_waiting n J opts assembled_execution 4
           (run (scenario J n r0 t1 r1 t2 r2 t3 r3 t4) s)"
    and "suspended n 3 (run (scenario J n r0 t1 r1 t2 r2 t3 r3 t4) s)"
proof -
  let ?e1 = "new_Execution\<lparr>logs := \<lparr>stdout = [Some (JStr ''a'')], stderr = []\<rparr>\<rparr>"
  let ?e2 = "new_Execution\<lparr>logs := \<lparr>stdout = [Some (JStr ''a''), Some (JStr ''b'')],
                                       stderr = []\<rparr>\<rparr>"
  let ?e3 = "?e2\<lparr>executionCount := Some (JNum 1)\<rparr>"
  let ?c1 = "[(''type'', JStr ''stdout''), (''text'', JStr ''a'')]"
  let ?c2 = "[(''type'', JStr ''stdout''), (''text'', JStr ''b'')]"
  let ?c3 = "[(''type'', JStr ''execution_count''), (''execution_count'', JNum 1)]"
  let ?c4 = "[(''type'', JStr ''error''), (''name'', JStr ''ValueError''),
              (''value'', JStr ''bad''), (''traceback'', JStr ''...'')]"
  have p1: "fst (parseOutput t1 new_Execution (Some (JObj ?c1)) opts) = ?e1"
    by (simp add: parseOutput_def Let_def new_Execution_def)
  have p2: "fst (parseOutput t2 ?e1 (Some (JObj ?c2)) opts) = ?e2"
    by (simp add: parseOutput_def Let_def new_Execution_def)
  have p3: "fst (parseOutput t3 ?e2 (Some (JObj ?c3)) opts) = ?e3"
    by (simp add: parseOutput_def Let_def new_Execution_def)
  have p4: "fst (parseOutput t4 ?e3 (Some (JObj ?c4)) opts) = assembled_execution"
    by (simp add: parseOutput_def Let_def new_Execution_def assembled_execution_def)
  have n0: "error new_Execution = None" and n1: "error ?e1 = None"
    and n2: "error ?e2 = None" and n3: "error ?e3 = None"
    by (simp_all add: new_Execution_def)
  let ?s0 = "run (resumptions n r0) s"
  let ?s1 = "run (resumptions n r1) (step (t1, chunk J ?c1) ?s0)"
  let ?s2 = "run (resumptions n r2) (step (t2, chunk J ?c2) ?s1)"
  let ?s3 = "run (resumptions n r3) (step (t3, chunk J ?c3) ?s2)"
  have run_eq: "run (scenario J n r0 t1 r1 t2 r2 t3 r3 t4) s = step (t4, chunk J ?c4) ?s3"
    by (simp add: scenario_def run_append run_def del: step.simps)
  have w0: "streaming_waiting n J opts new_Execution 0 ?s0"
    by (rule resumptions_while_waiting [OF n0 w])
  have w1: "streaming_waiting n J opts ?e1 1 ?s1"
    using chunk_while_waiting(1) [OF w0 ok, of t1 ?c1]
    by (auto simp: p1 intro: resumptions_while_waiting [OF n1] simp del: step.simps)
  have w2: "streaming_waiting n J opts ?e2 2 ?s2"
    using chunk_while_waiting(1) [OF w1 ok, of t2 ?c2]
    by (auto simp: p2 numeral_2_eq_2 intro: resumptions_while_waiting [OF n2] simp del: step.simps)
  have w3: "streaming_waiting n J opts ?e3 3 ?s3"
    using chunk_while_waiting(1) [OF w2 ok, of t3 ?c3]
    by (auto simp: p3 numeral_3_eq_3 numeral_2_eq_2
        intro: resumptions_while_waiting [OF n3] simp del: step.simps)
  from chunk_while_waiting [OF w3 ok, of t4 ?c4]
  show "streaming_waiting n J opts assembled_execution 4
           (run (scenario J n r0 t1 r1 t2 r2 t3 r3 t4) s)"
    and "suspended n 3 (run (scenario J n r0 t1 r1 t2 r2 t3 r3 t4) s)"
    unfolding run_eq by (simp_all add: p4 eval_nat_numeral del: step.simps)
qed


text \<open>
  Claim C4. A streaming job J is issued on a freshly constructed SDK with a new
  \<open>Execution\<close>, and its callbacks, if any, complete normally. The chunks
  \<open>{type:"stdout", text:"a"}\<close>, \<open>{type:"stdout", text:"b"}\<close>,
  \<open>{type:"execution_count", execution_count:1}\<close> and
  \<open>{type:"error", name:"ValueError", value:"bad", traceback:"..."}\<close> arrive for J in this
  order, and the suspended listener calls are resumed at any moments before, between and
  after them, in any order. When the error chunk has been parsed the execution has
  \<open>logs.stdout = ["a","b"]\<close>, \<open>executionCount = 1\<close> and the error's name, value and
  traceback, and the promise is still pending. The first resumption of any suspended call
  after that ends the wait. Once the call made for the error chunk has been resumed, the
  promise is fulfilled with a result whose execution is the assembled one, the timer is
  disarmed, no function is registered for the output event, and a further chunk changes
  nothing.
\<close>

theorem streaming_assembly:
  assumes ok: "callbacks_succeed opts"
      and issued: "sendStreamingJob event J new_Execution md opts (new_SandboxSDK t0 cfg) =
                     Inr (n, s1)"
  shows "(\<exists>j. streamingJobs (run (scenario J n r0 t1 r1 t2 r2 t3 r3 t4) s1) n = Some j
              \<and> sj_execution j = assembled_execution \<and> sj_promise j = Pending)
       \<and> (suspended n k (run (scenario J n r0 t1 r1 t2 r2 t3 r3 t4) s1) \<longrightarrow>
            streaming_finished n assembled_execution
              (step (t, Resumes n k) (run (scenario J n r0 t1 r1 t2 r2 t3 r3 t4) s1)))
       \<and> (\<exists>j ts. streamingJobs
                     (run (scenario J n r0 t1 r1 t2 r2 t3 r3 t4 @ resumptions n r4 @
                           [(t5, Resumes n 3)] @ resumptions n r5) s1) n = Some j
              \<and> sj_execution j = assembled_execution
              \<and> streaming_result j =
                  Some \<lparr>er_execution = assembled_execution, er_metadata = sj_metadata j,
                        er_timestamp = ts\<rparr>
              \<and> sj_timer j = Cleared)
       \<and> handlers_for JOB_OUTPUT
            (run (scenario J n r0 t1 r1 t2 r2 t3 r3 t4 @ resumptions n r4 @
                  [(t5, Resumes n 3)] @ resumptions n r5) s1) = []
       \<and> step (t6, Received (JobOutput res))
            (run (scenario J n r0 t1 r1 t2 r2 t3 r3 t4 @ resumptions n r4 @
                  [(t5, Resumes n 3)] @ resumptions n r5) s1) =
          run (scenario J n r0 t1 r1 t2 r2 t3 r3 t4 @ resumptions n r4 @
               [(t5, Resumes n 3)] @ resumptions n r5) s1"
proof -
  let ?sc = "run (scenario J n r0 t1 r1 t2 r2 t3 r3 t4) s1"
  let ?end = "run (scenario J n r0 t1 r1 t2 r2 t3 r3 t4 @ resumptions n r4 @
                   [(t5, Resumes n 3)] @ resumptions n r5) s1"
  have e: "error assembled_execution \<noteq> None" by (simp add: assembled_execution_def)
  note parsed = scenario_parsed [OF ok issued_waiting [OF issued], of r0 t1 r1 t2 r2 t3 r3 t4]
  from parsed(1) have pending: "\<exists>j. streamingJobs ?sc n = Some j
      \<and> sj_execution j = assembled_execution \<and> sj_promise j = Pending"
    by (auto simp: streaming_waiting_def split: option.splits)
  have first: "suspended n k ?sc \<longrightarrow>
      streaming_finished n assembled_execution (step (t, Resumes n k) ?sc)"
    using resume_ends_wait [OF parsed(1) e] by blast
  have split: "?end = run (resumptions n r5)
      (step (t5, Resumes n 3) (run (resumptions n r4) ?sc))"
    by (simp add: run_append run_def del: step.simps)
  from resumptions_after_error [OF e, of n J opts 4 ?sc 3 r4] parsed
  have "streaming_waiting n J opts assembled_execution 4 (run (resumptions n r4) ?sc) \<and>
          suspended n 3 (run (resumptions n r4) ?sc)
        \<or> streaming_finished n assembled_execution (run (resumptions n r4) ?sc)" by simp
  then have "streaming_finished n assembled_execution
      (step (t5, Resumes n 3) (run (resumptions n r4) ?sc))"
    using resume_ends_wait [OF _ e] resume_when_finished by blast
  then have fin: "streaming_finished n assembled_execution ?end"
    unfolding split by (rule resumptions_when_finished)
  then have result: "\<exists>j ts. streamingJobs ?end n = Some j
      \<and> sj_execution j = assembled_execution
      \<and> streaming_result j =
          Some \<lparr>er_execution = assembled_execution, er_metadata = sj_metadata j,
                er_timestamp = ts\<rparr>
      \<and> sj_timer j = Cleared"
    by (auto simp: streaming_finished_def streaming_result_def
        split: option.splits promise.splits)
  from fin have off: "handlers_for JOB_OUTPUT ?end = []" by (simp add: streaming_finished_def)
  from fin have deaf: "step (t6, Received (JobOutput res)) ?end = ?end"
    by (rule chunk_when_finished)
  show ?thesis using pending first result off deaf by blast
qed

theorem streaming_assembly_witness:
  "map_option streaming_result (streamingJobs
     (run (scenario ''J'' 0 [] 1 [] 2 [(2, 0)] 3 [] 4 @ resumptions 0 [(4, 1)] @
           [(5, Resumes 0 3)] @ resumptions 0 [(6, 2)])
        (state_after (new_SandboxSDK 0 None)
           (sendStreamingJob EXECUTE ''J'' new_Execution some_metadata (Some logging_opts)
              (new_SandboxSDK 0 None)))) 0) =
   Some (Some
     \<lparr>er_execution = assembled_execution,
      er_metadata = \<lparr>executionId = ''e1'', sandboxId = ''sb1'', startTime = Some 0,
                     endTime = Some 6, duration = Some 6\<rparr>,
      er_timestamp = 4\<rparr>)"
proof -
  have ok: "callbacks_succeed (Some logging_opts)"
    by (simp add: callbacks_succeed_def logging_opts_def)
  have "\<exists>s1. sendStreamingJob EXECUTE ''J'' new_Execution some_metadata (Some logging_opts)
          (new_SandboxSDK 0 None) = Inr (0, s1)"
    by (simp add: sendStreamingJob_def new_SandboxSDK_def Let_def)
  then obtain s1 where issued: "sendStreamingJob EXECUTE ''J'' new_Execution some_metadata
      (Some logging_opts) (new_SandboxSDK 0 None) = Inr (0, s1)" ..
  let ?end = "run (scenario ''J'' 0 [] 1 [] 2 [(2, 0)] 3 [] 4 @ resumptions 0 [(4, 1)] @
           [(5, Resumes 0 3)] @ resumptions 0 [(6, 2)]) s1"
  from streaming_assembly [OF ok issued, of "[]" 1 "[]" 2 "[(2, 0)]" 3 "[]" 4 0 5 "[(4, 1)]" 5
      "[(6, 2)]"]
  obtain j ts where j: "streamingJobs ?end 0 = Some j"
    "streaming_result j =
       Some \<lparr>er_execution = assembled_execution, er_metadata = sj_metadata j,
             er_timestamp = ts\<rparr>" by blast
  have md: "map_option sj_metadata (streamingJobs ?end 0) =
      Some \<lparr>executionId = ''e1'', sandboxId = ''sb1'', startTime = Some 0,
            endTime = Some 6, duration = Some 6\<rparr>"
    and ts: "map_option sj_promise (streamingJobs ?end 0) = Some (Fulfilled 4)"
    unfolding sendStreamingJob_fresh(2) [OF issued]
    by (simp_all add: scenario_def resumptions_def sdk_defs streaming_defs Let_def chunk_def
        parseOutput_def invoke_def logging_opts_def some_metadata_def new_Execution_def)
  from j md ts have "streaming_result j =
      Some \<lparr>er_execution = assembled_execution,
            er_metadata = \<lparr>executionId = ''e1'', sandboxId = ''sb1'', startTime = Some 0,
                           endTime = Some 6, duration = Some 6\<rparr>,
            er_timestamp = 4\<rparr>"
    by (auto simp: streaming_result_def split: promise.splits)
  with j(1) issued show ?thesis by (simp add: state_after_def)
qed

text \<open>
  A chunk that arrives after the error chunk but before any suspended call is resumed
  is still parsed: the listener leaves the socket only in the resumed part of a call.
\<close>

lemma chunk_before_resumption_is_parsed:
  "map_option (\<lambda>j. (stdout (logs (sj_execution j)), sj_promise j))
     (streamingJobs
        (run [(1, chunk ''J'' [(''type'', JStr ''error''), (''name'', JStr ''E'')]),
              (2, chunk ''J'' [(''type'', JStr ''stdout''), (''text'', JStr ''z'')]),
              (3, Resumes 0 0)]
           (state_after (new_SandboxSDK 0 None)
              (sendStreamingJob EXECUTE ''J'' new_Execution some_metadata None
                 (new_SandboxSDK 0 None)))) 0) =
   Some ([Some (JStr ''z'')], Fulfilled 3)"
  by (simp add: state_after_def sdk_defs streaming_defs Let_def chunk_def
      parseOutput_def invoke_def some_metadata_def new_Execution_def)


subsection \<open>A callback that fails\<close>

text \<open>
  From any state: a call of the listener for a chunk of its job is suspended with the
  outcome of \<open>parseOutput\<close>; when a call whose \<open>parseOutput\<close> failed is resumed while
  the promise is pending, the promise is rejected with that failure and the listener is
  taken off the socket. No part of the listener function and not the timer of a
  streaming job ever changes the map of tracked listeners.
\<close>

lemma streaming_job_never_untracked:
  "listeners (outputListener now n res s) = listeners s"
  "listeners (outputListener_resume now n k s) = listeners s"
  "listeners (fire (StreamingTimer n) s) = listeners s"
  by (simp_all add: outputListener_frame outputListener_resume_frame streaming_timer_def
      sj_settle_frame streaming_cleanup_frame split: option.splits)

lemma callback_failure_suspends:
  assumes "streamingJobs s n = Some j" and "oc_jobId res = sj_jobId j"
      and "parseOutput now (sj_execution j) (oc_line res) (sj_opts j) = (ex, calls, failure)"
  shows "streamingJobs (outputListener now n res s) n =
           Some (j\<lparr>sj_execution := ex,
                   sj_suspended := sj_suspended j @ [(sj_calls j, failure)],
                   sj_calls := Suc (sj_calls j)\<rparr>)"
  using assms by (simp add: outputListener_def)

lemma callback_failure_rejects:
  assumes "streamingJobs s n = Some j" and "sj_promise j = Pending"
      and "map_of (sj_suspended j) k = Some (Some e)"
  shows "map_option sj_promise (streamingJobs (outputListener_resume now n k s) n) =
           Some (Rejected e)"
    and "socket (outputListener_resume now n k s) =
           map_option (remove1 (JOB_OUTPUT, OutputListener n)) (socket s)"
  using assms
  by (simp_all add: outputListener_resume_def Let_def streaming_cleanup_def sj_settle_def
      reject_def)

text \<open>
  Claim C5, evaluated on a fresh SDK: a streaming job whose \<open>onStdout\<close> callback fails on
  the first chunk, and the resumption of the listener call made for that chunk. The
  promise is rejected with the callback's failure, the timer is disarmed and the listener
  is taken off the socket, but \<open>cleanup\<close> does not call \<open>removeListener\<close>: the listener is
  still in the map of tracked listeners afterwards.
\<close>

theorem callback_failure_keeps_tracking:
  "case sendStreamingJob EXECUTE ''J'' new_Execution some_metadata (Some failing_opts)
          (new_SandboxSDK 0 None) of
     Inl e \<Rightarrow> False
   | Inr (n, s1) \<Rightarrow>
       (let s2 = run [(5, chunk ''J'' [(''type'', JStr ''stdout''), (''text'', JStr ''a'')]),
                      (5, Resumes n 0)] s1
        in map_option sj_promise (streamingJobs s2 n) = Some (Rejected (CallbackFailure ''boom''))
         \<and> map_option sj_timer (streamingJobs s2 n) = Some Cleared
         \<and> socket s2 = Some []
         \<and> tracked s2 JOB_OUTPUT (OutputListener n)
         \<and> listeners s2 JOB_OUTPUT = Some {OutputListener n})"
  by (simp add: sdk_defs streaming_defs Let_def chunk_def failing_opts_def some_metadata_def
      parseOutput_def invoke_def new_Execution_def)


subsection \<open>Unknown message types\<close>

text \<open>
  Claim C10. When the line decodes to an object whose \<open>type\<close> field is none of
  \<open>"result"\<close>, \<open>"stdout"\<close>, \<open>"stderr"\<close>, \<open>"error"\<close>, \<open>"execution_count"\<close>, \<open>parseOutput\<close>
  returns the execution as it was, has invoked no callback, and does not fail.
\<close>

theorem parseOutput_unknown_type:
  assumes "map_of kvs ''type'' = Some ty"
      and "ty \<notin> {JStr ''result'', JStr ''stdout'', JStr ''stderr'', JStr ''error'',
                  JStr ''execution_count''}"
  shows "parseOutput now ex (Some (JObj kvs)) opts = (ex, [], None)"
  using assms by (simp add: parseOutput_def Let_def)

theorem parseOutput_unknown_type_witness:
  "parseOutput 7
     \<lparr>results = [], logs = \<lparr>stdout = [Some (JStr ''a'')], stderr = []\<rparr>, error = None,
      executionCount = Some (JNum 1)\<rparr>
     (Some (JObj [(''type'', JStr ''display_data''), (''text'', JStr ''x'')]))
     (Some failing_opts) =
   (\<lparr>results = [], logs = \<lparr>stdout = [Some (JStr ''a'')], stderr = []\<rparr>, error = None,
     executionCount = Some (JNum 1)\<rparr>, [], None)"
  using parseOutput_unknown_type
    [of "[(''type'', JStr ''display_data''), (''text'', JStr ''x'')]" "JStr ''display_data''"
        7 _ "Some failing_opts"]
  by simp



section \<open>Raw terminal mode\<close>

lemma runTerminal_fresh:
  assumes "runTerminal t0 J opts (new_SandboxSDK t cfg) = Inr (n, s1)"
  shows "n = 0"
    and "s1 = (new_SandboxSDK t cfg)
           \<lparr>socket := Some [(STREAM, StreamListener 0), (STREAM_END, EndListener 0)],
            listeners := [STREAM \<mapsto> {StreamListener 0}, STREAM_END \<mapsto> {EndListener 0}],
            emitted := [(TERMINAL, J)],
            nextClosure := 1,
            terminalJobs := [0 \<mapsto> \<lparr>tj_jobId = J,
                tj_timeout = or_default (opts_timeoutMs opts) (or_default cfg 60000),
                tj_timeoutHandle = True, tj_timer = Armed, tj_startTime = t0,
                tj_output = [], tj_opts = opts, tj_promise = Pending\<rparr>]\<rparr>"
  using assms
  by (auto simp: runTerminal_def new_SandboxSDK_def Let_def trackListener_def
      socket_on_def socket_emit_def STREAM_def STREAM_END_def)

text \<open>
  While the job's stream listener is the only function registered for the stream event,
  a chunk for the job extends its output and changes nothing else, whatever the callback
  does.
\<close>

lemma stream_step:
  assumes hs: "handlers_for STREAM s = [StreamListener n]"
      and j: "terminalJobs s n = Some j" and id: "tj_jobId j = J"
  shows "step (t, stream_chunk J c) s =
           s\<lparr>terminalJobs := (terminalJobs s)(n \<mapsto> j\<lparr>tj_output := tj_output j @ c\<rparr>)\<rparr>"
proof (cases "c = []")
  case True
  have "(terminalJobs s)(n \<mapsto> j) = terminalJobs s" using j by (rule map_upd_triv)
  with True hs j id show ?thesis
    by (simp add: stream_chunk_def receive_def streamListener_def)
next
  case False
  with hs j id show ?thesis
    by (simp add: stream_chunk_def receive_def streamListener_def Let_def split: option.splits)
qed

lemma stream_run:
  assumes id: "tj_jobId j = J"
  shows "handlers_for STREAM s = [StreamListener n] \<Longrightarrow> terminalJobs s n = Some j \<Longrightarrow>
         run (map (\<lambda>(t, c). (t, stream_chunk J c)) cs) s =
           s\<lparr>terminalJobs := (terminalJobs s)
                (n \<mapsto> j\<lparr>tj_output := tj_output j @ concat (map snd cs)\<rparr>)\<rparr>"
proof (induction cs rule: rev_induct)
  case Nil
  have "(terminalJobs s)(n \<mapsto> j) = terminalJobs s" using Nil(2) by (rule map_upd_triv)
  then show ?case by (simp add: run_def)
next
  case (snoc a cs)
  obtain t c where a: "a = (t, c)" by (cases a)
  let ?s = "s\<lparr>terminalJobs := (terminalJobs s)
                (n \<mapsto> j\<lparr>tj_output := tj_output j @ concat (map snd cs)\<rparr>)\<rparr>"
  have hs: "handlers_for STREAM ?s = [StreamListener n]"
    using snoc.prems(1) by (simp add: handlers_for_def)
  have "run (map (\<lambda>(t, c). (t, stream_chunk J c)) (cs @ [a])) s =
          step (t, stream_chunk J c) (run (map (\<lambda>(t, c). (t, stream_chunk J c)) cs) s)"
    by (simp add: run_snoc a)
  also have "\<dots> = step (t, stream_chunk J c) ?s"
    by (simp only: snoc.IH [OF snoc.prems])
  also have "\<dots> = ?s\<lparr>terminalJobs := (terminalJobs ?s)
        (n \<mapsto> (j\<lparr>tj_output := tj_output j @ concat (map snd cs)\<rparr>)
             \<lparr>tj_output := tj_output (j\<lparr>tj_output := tj_output j @ concat (map snd cs)\<rparr>) @ c\<rparr>)\<rparr>"
    by (rule stream_step [OF hs]) (simp_all add: id)
  finally show ?case by (simp add: a fun_upd_def cong: if_cong)
qed

text \<open>
  Claim C9. A terminal job J is issued on a freshly constructed SDK. While stream chunks
  for J arrive the promise stays pending; when the stream-end envelope for J arrives the
  promise is fulfilled with the chunks concatenated in arrival order. In particular the
  chunks \<open>"hel"\<close> and \<open>"lo"\<close> followed by the stream-end give \<open>"hello"\<close>.
\<close>

theorem terminal_output_concatenated:
  assumes issued: "runTerminal t0 J opts (new_SandboxSDK t cfg) = Inr (n, s1)"
  shows "map_option tj_promise
           (terminalJobs (run (map (\<lambda>(t, c). (t, stream_chunk J c)) cs) s1) n) = Some Pending
       \<and> map_option tj_promise
           (terminalJobs (run (map (\<lambda>(t, c). (t, stream_chunk J c)) cs @ [(te, stream_end J code)])
              s1) n) = Some (Fulfilled (concat (map snd cs)))
       \<and> map_option tj_promise
           (terminalJobs (run [(t1, stream_chunk J ''hel''), (t2, stream_chunk J ''lo''),
                               (t3, stream_end J code)] s1) n) = Some (Fulfilled ''hello'')"
proof -
  let ?j = "\<lparr>tj_jobId = J,
                tj_timeout = or_default (opts_timeoutMs opts) (or_default cfg 60000),
                tj_timeoutHandle = True, tj_timer = Armed, tj_startTime = t0,
                tj_output = [], tj_opts = opts, tj_promise = Pending\<rparr>"
  note fresh = runTerminal_fresh [OF issued]
  have hs: "handlers_for STREAM s1 = [StreamListener n]"
    unfolding fresh by (simp add: handlers_for_def STREAM_def STREAM_END_def)
  have j: "terminalJobs s1 n = Some ?j" unfolding fresh by simp
  have chunks: "run (map (\<lambda>(t, c). (t, stream_chunk J c)) cs) s1 =
      s1\<lparr>terminalJobs := (terminalJobs s1)
            (n \<mapsto> ?j\<lparr>tj_output := tj_output ?j @ concat (map snd cs)\<rparr>)\<rparr>" for cs
    by (rule stream_run [OF _ hs j]) simp
  have pending: "map_option tj_promise
       (terminalJobs (run (map (\<lambda>(t, c). (t, stream_chunk J c)) cs) s1) n) = Some Pending"
    by (simp add: chunks)
  have finished: "map_option tj_promise
       (terminalJobs (run (map (\<lambda>(t, c). (t, stream_chunk J c)) cs @ [(te, stream_end J code)])
          s1) n) = Some (Fulfilled (concat (map snd cs)))" for cs te
    unfolding run_append chunks unfolding fresh
    by (simp add: run_def stream_end_def receive_def handlers_for_def STREAM_def STREAM_END_def
        endListener_def terminal_cleanup_def tj_settle_def resolve_def Let_def new_SandboxSDK_def)
  from finished [of "[(t1, ''hel''), (t2, ''lo'')]" t3]
  have hello: "map_option tj_promise
           (terminalJobs (run [(t1, stream_chunk J ''hel''), (t2, stream_chunk J ''lo''),
                               (t3, stream_end J code)] s1) n) = Some (Fulfilled ''hello'')"
    by simp
  show ?thesis using pending finished hello by blast
qed

theorem terminal_output_concatenated_witness:
  "map_option tj_promise
     (terminalJobs
        (run [(1, stream_chunk ''J'' ''hel''), (2, stream_chunk ''J'' ''lo''),
              (3, stream_end ''J'' (Some 0))]
           (state_after (new_SandboxSDK 0 None)
              (runTerminal 0 ''J'' None (new_SandboxSDK 0 None)))) 0) =
   Some (Fulfilled ''hello'')"
proof -
  have "\<exists>s1. runTerminal 0 ''J'' None (new_SandboxSDK 0 None) = Inr (0, s1)"
    by (simp add: runTerminal_def new_SandboxSDK_def Let_def)
  then obtain s1 where issued: "runTerminal 0 ''J'' None (new_SandboxSDK 0 None) = Inr (0, s1)" ..
  from terminal_output_concatenated [OF issued, of "[]" 0 "Some 0" 1 2 3] issued
  show ?thesis by (simp add: state_after_def)
qed

end
